theory Spec2Isabelle
  imports Main "HOL-Library.Sublist"
begin

section \<open>JavaScript values used by the pool and the dispatcher\<close>

text \<open>
  An error object, as far as the code reads it: \<open>error.code\<close> in the dispatcher and
  \<open>err.message\<close> in the interface controller. Either property may be absent.
\<close>

datatype js_error = JsError (code: "string option") (message: "string option")

text \<open>
  The outcome of an awaited call: the promise resolves with a value or rejects with an
  error. A synchronous \<open>throw\<close> inside an async function is a rejection too.
\<close>

datatype 'a promise = Resolved 'a | Rejected js_error

text \<open>JavaScript truthiness of a value of type \<open>string | null | undefined\<close>.\<close>

fun truthy :: "string option \<Rightarrow> bool" where
  "truthy None = False"
| "truthy (Some s) = (s \<noteq> [])"

text \<open>\<open>String.prototype.includes\<close>: the pattern occurs somewhere in the text.\<close>

fun js_includes :: "string \<Rightarrow> string \<Rightarrow> bool" where
  "js_includes [] p = (p = [])"
| "js_includes (c # cs) p = (prefix p (c # cs) \<or> js_includes cs p)"

text \<open>
  \<open>Array.prototype.slice(start, end)\<close> on integer arguments: a negative argument counts
  from the end of the array, and both are clamped to the array.
\<close>

definition js_slice :: "'a list \<Rightarrow> int \<Rightarrow> int \<Rightarrow> 'a list" where
  "js_slice xs start fin =
     (let len = int (length xs);
          k = (if start < 0 then max (len + start) 0 else min start len);
          final = (if fin < 0 then max (len + fin) 0 else min fin len)
      in take (nat (final - k)) (drop (nat k) xs))"

text \<open>\<open>slice(start)\<close>: the end defaults to the length of the array.\<close>

definition js_slice_from :: "'a list \<Rightarrow> int \<Rightarrow> 'a list" where
  "js_slice_from xs start = js_slice xs start (int (length xs))"

section \<open>Configuration, host and pool state (ipv6pool.ts)\<close>

text \<open>
  The \<open>config\<close> object. The three sizes come from \<open>parseInt\<close> on an environment
  variable, so they are integers of either sign (the value \<open>NaN\<close> that \<open>parseInt\<close> gives
  on text that is no number is outside this model).
\<close>

record config =
  ipv6Prefix :: string
  ipv6Subnet :: string
  interface :: string
  desiredPoolSize :: int
  poolManageInterval :: int
  poolAddBatchSize :: int
  debug :: bool

text \<open>
  What the code reads of the host besides running commands: \<open>process.platform\<close> and
  whether \<open>os.networkInterfaces()\<close> has an entry of a given name.
\<close>

record host =
  platform :: string
  networkInterfaces :: "string \<Rightarrow> bool"

text \<open>
  Running commands. The commands issued so far are kept in a log, oldest first; the
  shell says how the \<open>k\<close>-th command issued ends, given its text: it resolves
  with the standard output or rejects with an error.
\<close>

type_synonym shell = "nat \<Rightarrow> string \<Rightarrow> string promise"

definition execAsync :: "shell \<Rightarrow> string \<Rightarrow> string list \<Rightarrow> string promise \<times> string list" where
  "execAsync sh cmd log = (sh (length log) cmd, log @ [cmd])"

text \<open>
  The module-level variables \<open>ipPool\<close>, \<open>poolMutex\<close>, \<open>currentIPIndex\<close>,
  \<open>initialized\<close> and \<open>poolTimer\<close> (true when an interval timer is set, false for
  \<open>null\<close>).
\<close>

record pool_state =
  ipPool :: "string list"
  poolMutex :: bool
  currentIPIndex :: nat
  initialized :: bool
  poolTimer :: bool

definition initial_state :: pool_state where
  "initial_state =
     \<lparr>ipPool = [], poolMutex = False, currentIPIndex = 0, initialized = False, poolTimer = False\<rparr>"

section \<open>Interface controller\<close>

definition check_command :: "config \<Rightarrow> string" where
  "check_command cfg = ''ip link show '' @ interface cfg"

text \<open>
  \<open>checkInterface\<close>: on macOS and Windows the interface only has to exist; elsewhere
  \<open>ip link show\<close> has to report it up. The \<open>catch\<close> turns every error into \<open>false\<close>.
\<close>

definition checkInterface :: "host \<Rightarrow> config \<Rightarrow> shell \<Rightarrow> string list \<Rightarrow> bool promise \<times> string list" where
  "checkInterface h cfg sh log =
     (if platform h = ''darwin'' \<or> platform h = ''win32''
      then (Resolved (networkInterfaces h (interface cfg)), log)
      else (case execAsync sh (check_command cfg) log of
              (Resolved stdout, log') \<Rightarrow>
                (Resolved (js_includes stdout ''state UP'' \<or> js_includes stdout ''LOWER_UP''), log')
            | (Rejected err, log') \<Rightarrow> (Resolved False, log')))"

definition add_command :: "host \<Rightarrow> config \<Rightarrow> string \<Rightarrow> string" where
  "add_command h cfg ipv6 =
     (if platform h = ''darwin''
      then ''sudo ifconfig '' @ interface cfg @ '' inet6 '' @ ipv6 @ ''/128 alias''
      else if platform h = ''win32''
      then ''netsh interface ipv6 add address '' @ [CHR 0x22] @ interface cfg @ [CHR 0x22]
             @ '' '' @ ipv6 @ ''/128''
      else ''ip -6 addr add '' @ ipv6 @ ''/128 dev '' @ interface cfg)"

text \<open>
  The test of the \<open>catch\<close> block of \<open>addIPv6ToInterface\<close>,
  \<open>err.message && err.message.includes("File exists")\<close>: this is how the code
  recognises that the address is on the interface already.
\<close>

definition fileExists :: "js_error \<Rightarrow> bool" where
  "fileExists err = (truthy (message err) \<and> js_includes (the (message err)) ''File exists'')"

text \<open>
  \<open>addIPv6ToInterface\<close>: the \<open>try\<close> block returns \<open>true\<close> when the command resolves; the
  \<open>catch\<close> block returns \<open>true\<close> when \<open>fileExists\<close> holds of the error, and \<open>false\<close>
  otherwise. Console output is not modelled.
\<close>

definition addIPv6ToInterface ::
  "host \<Rightarrow> config \<Rightarrow> shell \<Rightarrow> string \<Rightarrow> string list \<Rightarrow> bool promise \<times> string list" where
  "addIPv6ToInterface h cfg sh ipv6 log =
     (case execAsync sh (add_command h cfg ipv6) log of
        (Resolved stdout, log') \<Rightarrow> (Resolved True, log')
      | (Rejected err, log') \<Rightarrow>
          (if fileExists err
           then (Resolved True, log')
           else (Resolved False, log')))"

definition remove_command :: "host \<Rightarrow> config \<Rightarrow> string \<Rightarrow> string" where
  "remove_command h cfg ipv6 =
     (if platform h = ''darwin''
      then ''sudo ifconfig '' @ interface cfg @ '' inet6 '' @ ipv6 @ ''/128 -alias''
      else if platform h = ''win32''
      then ''netsh interface ipv6 delete address '' @ [CHR 0x22] @ interface cfg @ [CHR 0x22]
             @ '' '' @ ipv6
      else ''ip -6 addr del '' @ ipv6 @ ''/128 dev '' @ interface cfg)"

definition removeIPv6FromInterface ::
  "host \<Rightarrow> config \<Rightarrow> shell \<Rightarrow> string \<Rightarrow> string list \<Rightarrow> bool promise \<times> string list" where
  "removeIPv6FromInterface h cfg sh ipv6 log =
     (case execAsync sh (remove_command h cfg ipv6) log of
        (Resolved stdout, log') \<Rightarrow> (Resolved True, log')
      | (Rejected err, log') \<Rightarrow> (Resolved False, log'))"

section \<open>Round-robin selection\<close>

text \<open>
  \<open>getNextIPFromPool\<close>. The validity check \<open>net.isIPv6\<close> belongs to the runtime and is a
  parameter; it is false on \<open>undefined\<close>, which is what reading \<open>ipPool[index]\<close>
  past the end of the array gives. The function calls itself with no bound on the
  depth, so it is a partial function: \<open>None\<close> stands for a call that never returns
  (the runtime ends it with a stack-overflow \<open>RangeError\<close>). A call that returns
  gives the address, or \<open>None\<close> for \<open>null\<close>, and the state it leaves.
\<close>

partial_function (option) getNextIPFromPool ::
  "(string \<Rightarrow> bool) \<Rightarrow> pool_state \<Rightarrow> (string option \<times> pool_state) option" where
  "getNextIPFromPool isIPv6 st =
     (if \<not> initialized st \<or> length (ipPool st) = 0 then Some (None, st)
      else let index = currentIPIndex st;
               st' = st\<lparr>currentIPIndex := (currentIPIndex st + 1) mod length (ipPool st)\<rparr>
           in if index < length (ipPool st') \<and> isIPv6 (ipPool st' ! index)
              then Some (Some (ipPool st' ! index), st')
              else getNextIPFromPool isIPv6 st')"

declare getNextIPFromPool.simps [code]

section \<open>Reconciliation\<close>

text \<open>The loop \<open>for (const ip of ipsToRemove) await removeIPv6FromInterface(ip)\<close>.\<close>

fun removeLoop ::
  "host \<Rightarrow> config \<Rightarrow> shell \<Rightarrow> string list \<Rightarrow> string list \<Rightarrow> unit promise \<times> string list" where
  "removeLoop h cfg sh [] log = (Resolved (), log)"
| "removeLoop h cfg sh (ip # ips) log =
     (case removeIPv6FromInterface h cfg sh ip log of
        (Resolved ok, log') \<Rightarrow> removeLoop h cfg sh ips log'
      | (Rejected err, log') \<Rightarrow> (Rejected err, log'))"

text \<open>
  The loop \<open>for (let i = 0; i < batchTarget; i++)\<close>: \<open>gen i\<close> is the address the
  \<open>i\<close>-th call of \<open>randomIPv6\<close> in this pass returns; the second numeric argument counts
  the iterations left, the list is \<open>addedIPs\<close>.
\<close>

fun addLoop ::
  "host \<Rightarrow> config \<Rightarrow> shell \<Rightarrow> (nat \<Rightarrow> string) \<Rightarrow> nat \<Rightarrow> nat \<Rightarrow> string list \<Rightarrow> string list
     \<Rightarrow> string list promise \<times> string list" where
  "addLoop h cfg sh gen i 0 addedIPs log = (Resolved addedIPs, log)"
| "addLoop h cfg sh gen i (Suc n) addedIPs log =
     (let newIP = gen i in
      case addIPv6ToInterface h cfg sh newIP log of
        (Resolved success, log') \<Rightarrow>
          addLoop h cfg sh gen (Suc i) n (if success then addedIPs @ [newIP] else addedIPs) log'
      | (Rejected err, log') \<Rightarrow> (Rejected err, log'))"

text \<open>
  The replacement branch of \<open>manageIPPool\<close>: the addresses to remove from the
  interface, and the state with them dropped from the front of the pool and the
  index reset when it is past the end of a pool that is not empty.
\<close>

definition replaceOldest :: "config \<Rightarrow> pool_state \<Rightarrow> string list \<times> pool_state" where
  "replaceOldest cfg st =
     (let currentSize = int (length (ipPool st));
          numToRemove = min (poolAddBatchSize cfg) currentSize;
          ipsToRemove = js_slice (ipPool st) 0 numToRemove;
          st1 = st\<lparr>ipPool := js_slice_from (ipPool st) numToRemove\<rparr>
      in (ipsToRemove,
          if currentIPIndex st1 \<ge> length (ipPool st1) \<and> length (ipPool st1) > 0
          then st1\<lparr>currentIPIndex := 0\<rparr> else st1))"

text \<open>
  \<open>manageIPPool\<close>, one pass, run to its end: a pass writes the pool only before its
  first \<open>await\<close> (the replacement) or after its last (the append), and the flag
  \<open>poolMutex\<close> turns a call made while a pass is running into a no-op. The
  \<open>finally\<close> block clears the flag on every way out.
\<close>

definition manageIPPool ::
  "host \<Rightarrow> config \<Rightarrow> shell \<Rightarrow> (nat \<Rightarrow> string) \<Rightarrow> pool_state \<Rightarrow> string list
     \<Rightarrow> unit promise \<times> pool_state \<times> string list" where
  "manageIPPool h cfg sh gen st log =
     (if poolMutex st then (Resolved (), st, log)
      else
        let st0 = st\<lparr>poolMutex := True\<rparr>;
            currentSize = int (length (ipPool st0));
            needToAdd = (currentSize < desiredPoolSize cfg);
            batchTarget = min (poolAddBatchSize cfg) (desiredPoolSize cfg - currentSize);
            shouldReplace = (currentSize \<ge> desiredPoolSize cfg);
            (ipsToRemove, st1) = (if shouldReplace then replaceOldest cfg st0 else ([], st0));
            (removed, log1) =
               (if length ipsToRemove > 0 then removeLoop h cfg sh ipsToRemove log
                else (Resolved (), log))
        in case removed of
             Rejected err \<Rightarrow> (Rejected err, st1\<lparr>poolMutex := False\<rparr>, log1)
           | Resolved u \<Rightarrow>
               if needToAdd \<and> batchTarget > 0
               then (case addLoop h cfg sh gen 0 (nat batchTarget) [] log1 of
                       (Rejected err, log2) \<Rightarrow> (Rejected err, st1\<lparr>poolMutex := False\<rparr>, log2)
                     | (Resolved addedIPs, log2) \<Rightarrow>
                         (Resolved (),
                          (if length addedIPs > 0
                           then st1\<lparr>ipPool := ipPool st1 @ addedIPs\<rparr> else st1)
                            \<lparr>poolMutex := False\<rparr>,
                          log2))
               else (Resolved (), st1\<lparr>poolMutex := False\<rparr>, log1))"

text \<open>
  A pass in flight. A pass that grows the pool is suspended at every
  \<open>await addIPv6ToInterface\<close>, and other code of the module can run then. What follows
  the last \<open>await\<close> runs in one piece: the last \<open>push\<close>, the append to \<open>ipPool\<close> as it
  is at that moment, and the \<open>finally\<close> block. \<open>manageIPPool_begin\<close> is the pass up to
  its last \<open>await\<close>: it gives \<open>None\<close> when the flag turns the call into a no-op, and
  otherwise the addresses in \<open>addedIPs\<close> (none when the pass does not grow the pool),
  the state with the flag set, and the log with the commands issued.
  \<open>manageIPPool_end\<close> is the rest, on the state it finds.
\<close>

definition manageIPPool_begin ::
  "host \<Rightarrow> config \<Rightarrow> shell \<Rightarrow> (nat \<Rightarrow> string) \<Rightarrow> pool_state \<Rightarrow> string list
     \<Rightarrow> (string list promise \<times> pool_state \<times> string list) option" where
  "manageIPPool_begin h cfg sh gen st log =
     (if poolMutex st then None
      else
        let st0 = st\<lparr>poolMutex := True\<rparr>;
            currentSize = int (length (ipPool st0));
            needToAdd = (currentSize < desiredPoolSize cfg);
            batchTarget = min (poolAddBatchSize cfg) (desiredPoolSize cfg - currentSize);
            shouldReplace = (currentSize \<ge> desiredPoolSize cfg);
            (ipsToRemove, st1) = (if shouldReplace then replaceOldest cfg st0 else ([], st0));
            (removed, log1) =
               (if length ipsToRemove > 0 then removeLoop h cfg sh ipsToRemove log
                else (Resolved (), log))
        in case removed of
             Rejected err \<Rightarrow> Some (Rejected err, st1, log1)
           | Resolved u \<Rightarrow>
               if needToAdd \<and> batchTarget > 0
               then (case addLoop h cfg sh gen 0 (nat batchTarget) [] log1 of
                       (added, log2) \<Rightarrow> Some (added, st1, log2))
               else Some (Resolved [], st1, log1))"

definition manageIPPool_end :: "string list promise \<Rightarrow> pool_state \<Rightarrow> unit promise \<times> pool_state" where
  "manageIPPool_end added st =
     (case added of
        Rejected err \<Rightarrow> (Rejected err, st\<lparr>poolMutex := False\<rparr>)
      | Resolved addedIPs \<Rightarrow>
          (Resolved (),
           (if length addedIPs > 0 then st\<lparr>ipPool := ipPool st @ addedIPs\<rparr> else st)
             \<lparr>poolMutex := False\<rparr>))"

section \<open>Lifecycle and status\<close>

definition initIPv6Pool ::
  "host \<Rightarrow> config \<Rightarrow> shell \<Rightarrow> (nat \<Rightarrow> string) \<Rightarrow> pool_state \<Rightarrow> string list
     \<Rightarrow> bool promise \<times> pool_state \<times> string list" where
  "initIPv6Pool h cfg sh gen st log =
     (if initialized st then (Resolved True, st, log)
      else if ipv6Prefix cfg = [] \<or> ipv6Subnet cfg = [] then (Resolved False, st, log)
      else (case checkInterface h cfg sh log of
              (Rejected err, log1) \<Rightarrow> (Rejected err, st, log1)
            | (Resolved interfaceOk, log1) \<Rightarrow>
                if \<not> interfaceOk then (Resolved False, st, log1)
                else (case manageIPPool h cfg sh gen st log1 of
                        (Rejected err, st1, log2) \<Rightarrow> (Rejected err, st1, log2)
                      | (Resolved u, st1, log2) \<Rightarrow>
                          (Resolved True, st1\<lparr>poolTimer := True, initialized := True\<rparr>, log2))))"

text \<open>
  \<open>stopIPv6Pool\<close>, run to its end. It reads \<open>initialized\<close> and \<open>poolTimer\<close> but not
  \<open>poolMutex\<close>, so it does the same on a state in which a pass is suspended (the flag
  set, see \<open>manageIPPool_begin\<close>) as on an idle one.
\<close>

definition stopIPv6Pool ::
  "host \<Rightarrow> config \<Rightarrow> shell \<Rightarrow> pool_state \<Rightarrow> string list \<Rightarrow> unit promise \<times> pool_state \<times> string list" where
  "stopIPv6Pool h cfg sh st log =
     (if \<not> initialized st then (Resolved (), st, log)
      else
        let st1 = (if poolTimer st then st\<lparr>poolTimer := False\<rparr> else st)
        in case removeLoop h cfg sh (ipPool st1) log of
             (Rejected err, log1) \<Rightarrow> (Rejected err, st1, log1)
           | (Resolved u, log1) \<Rightarrow>
               (Resolved (), st1\<lparr>ipPool := [], currentIPIndex := 0, initialized := False\<rparr>, log1))"

definition isIPv6RotationEnabled :: "pool_state \<Rightarrow> bool" where
  "isIPv6RotationEnabled st = (initialized st \<and> length (ipPool st) > 0)"

record pool_info =
  enabled :: bool
  poolSize :: nat
  info_interface :: string
  info_prefix :: string

definition getIPv6PoolInfo :: "config \<Rightarrow> pool_state \<Rightarrow> pool_info" where
  "getIPv6PoolInfo cfg st =
     \<lparr>enabled = initialized st, poolSize = length (ipPool st),
      info_interface = interface cfg, info_prefix = ipv6Prefix cfg\<rparr>"

text \<open>
  The states the module can be in: it starts with an empty pool, and then
  \<open>initIPv6Pool\<close>, a timer tick (while the interval timer is set), \<open>getNextIPFromPool\<close>
  and \<open>stopIPv6Pool\<close> run one after the other, each with any shell behaviour and any
  random addresses.
\<close>

inductive reachable :: "host \<Rightarrow> config \<Rightarrow> (string \<Rightarrow> bool) \<Rightarrow> pool_state \<Rightarrow> bool"
  for h :: host and cfg :: config and isIPv6 :: "string \<Rightarrow> bool" where
  r_start: "reachable h cfg isIPv6 initial_state"
| r_init: "reachable h cfg isIPv6 st \<Longrightarrow> initIPv6Pool h cfg sh gen st log = (r, st', log')
           \<Longrightarrow> reachable h cfg isIPv6 st'"
| r_tick: "reachable h cfg isIPv6 st \<Longrightarrow> poolTimer st
           \<Longrightarrow> manageIPPool h cfg sh gen st log = (r, st', log')
           \<Longrightarrow> reachable h cfg isIPv6 st'"
| r_next: "reachable h cfg isIPv6 st \<Longrightarrow> getNextIPFromPool isIPv6 st = Some (a, st')
           \<Longrightarrow> reachable h cfg isIPv6 st'"
| r_stop: "reachable h cfg isIPv6 st \<Longrightarrow> stopIPv6Pool h cfg sh st log = (r, st', log')
           \<Longrightarrow> reachable h cfg isIPv6 st'"

text \<open>Calling \<open>getNextIPFromPool\<close> \<open>n\<close> times in a row, collecting what it returns.\<close>

fun callNext ::
  "(string \<Rightarrow> bool) \<Rightarrow> nat \<Rightarrow> pool_state \<Rightarrow> (string option list \<times> pool_state) option" where
  "callNext isIPv6 0 st = Some ([], st)"
| "callNext isIPv6 (Suc n) st =
     (case getNextIPFromPool isIPv6 st of
        None \<Rightarrow> None
      | Some (a, st1) \<Rightarrow>
          (case callNext isIPv6 n st1 of
             None \<Rightarrow> None
           | Some (as, st2) \<Rightarrow> Some (a # as, st2)))"

text \<open>An initialized pool that is not empty and has no entry the validity check accepts.\<close>

definition all_invalid :: "(string \<Rightarrow> bool) \<Rightarrow> pool_state \<Rightarrow> bool" where
  "all_invalid isIPv6 st =
     (initialized st \<and> ipPool st \<noteq> [] \<and> list_all (\<lambda>x. \<not> isIPv6 x) (ipPool st))"

section \<open>Request dispatcher (ipv6proxy.ts)\<close>

text \<open>The options \<open>createIPv6Agent\<close> gives the agent, and the agent of either kind.\<close>

record agent_options =
  keepAlive :: bool
  timeout :: int
  localAddress :: string

datatype agent = HttpAgent agent_options | HttpsAgent agent_options

definition createIPv6Agent :: "string \<Rightarrow> bool \<Rightarrow> agent" where
  "createIPv6Agent ipv6 isHttps =
     (let options = \<lparr>keepAlive = True, timeout = 30000, localAddress = ipv6\<rparr>
      in if isHttps then HttpsAgent options else HttpAgent options)"

text \<open>
  What the code reads of a parsed \<open>URL\<close>. The parser \<open>new URL(url)\<close> belongs to the
  runtime and is a parameter of the functions below; it throws on text that is no URL.
\<close>

record url =
  protocol :: string
  hostname :: string
  port :: string
  pathname :: string
  search :: string

text \<open>
  A call of \<open>axios\<close>: \<open>axios(url, options)\<close> with the caller's options as they are, or
  \<open>axios({...options, url, httpAgent, httpsAgent})\<close>. The calls made so far are kept
  in a log; \<open>ax k c\<close> is how the \<open>k\<close>-th call made ends when it is the call \<open>c\<close>.
\<close>

datatype 'o axios_call =
    AxiosUrl string 'o
  | AxiosConfig 'o string "agent option" "agent option"

type_synonym ('o, 'r) axios = "nat \<Rightarrow> 'o axios_call \<Rightarrow> 'r promise"

definition axios_request ::
  "('o, 'r) axios \<Rightarrow> 'o axios_call \<Rightarrow> 'o axios_call list \<Rightarrow> 'r promise \<times> 'o axios_call list" where
  "axios_request ax c calls = (ax (length calls) c, calls @ [c])"

text \<open>The expression \<open>ipv6 || getNextIPFromPool()\<close>: the pool is asked only when no address is given.\<close>

definition selectSource ::
  "(string \<Rightarrow> bool) \<Rightarrow> string option \<Rightarrow> pool_state \<Rightarrow> (string option \<times> pool_state) option" where
  "selectSource isIPv6 ipv6 st =
     (if truthy ipv6 then Some (ipv6, st) else getNextIPFromPool isIPv6 st)"

text \<open>The request of the \<open>try\<close> block of \<open>requestWithIPv6\<close>, with the agent in the field of its scheme.\<close>

definition boundConfig :: "'o \<Rightarrow> string \<Rightarrow> string \<Rightarrow> bool \<Rightarrow> 'o axios_call" where
  "boundConfig options url sourceIp isHttps =
     (let agent = createIPv6Agent sourceIp isHttps
      in AxiosConfig options url
           (if \<not> isHttps then Some agent else None)
           (if isHttps then Some agent else None))"

text \<open>
  \<open>requestWithIPv6\<close>. The result is \<open>None\<close> when the selection of the address never
  returns; otherwise it is how the returned promise settles, the pool state and the
  log of \<open>axios\<close> calls.
\<close>

definition requestWithIPv6 ::
  "(string \<Rightarrow> bool) \<Rightarrow> (string \<Rightarrow> url promise) \<Rightarrow> ('o, 'r) axios \<Rightarrow> string \<Rightarrow> 'o
     \<Rightarrow> string option \<Rightarrow> pool_state \<Rightarrow> 'o axios_call list
     \<Rightarrow> ('r promise \<times> pool_state \<times> 'o axios_call list) option" where
  "requestWithIPv6 isIPv6 new_URL ax url options ipv6 st calls =
     (if \<not> isIPv6RotationEnabled st \<and> \<not> truthy ipv6
      then (case axios_request ax (AxiosUrl url options) calls of
              (r, calls1) \<Rightarrow> Some (r, st, calls1))
      else (case selectSource isIPv6 ipv6 st of
              None \<Rightarrow> None
            | Some (sourceIp, st1) \<Rightarrow>
                if \<not> truthy sourceIp
                then (case axios_request ax (AxiosUrl url options) calls of
                        (r, calls1) \<Rightarrow> Some (r, st1, calls1))
                else (case new_URL url of
                        Rejected err \<Rightarrow> Some (Rejected err, st1, calls)
                      | Resolved parsedUrl \<Rightarrow>
                          let isHttps = (protocol parsedUrl = ''https:'')
                          in case axios_request ax
                                    (boundConfig options url (the sourceIp) isHttps) calls of
                               (Resolved response, calls1) \<Rightarrow> Some (Resolved response, st1, calls1)
                             | (Rejected error, calls1) \<Rightarrow>
                                 if code error = Some ''EADDRNOTAVAIL''
                                      \<or> code error = Some ''ENETUNREACH''
                                 then (case axios_request ax (AxiosUrl url options) calls1 of
                                         (r, calls2) \<Rightarrow> Some (r, st1, calls2))
                                 else Some (Rejected error, st1, calls1))))"

text \<open>
  The options object of \<open>createIPv6StreamRequest\<close>, of type \<open>http.RequestOptions\<close>. The
  code sets \<open>hostname\<close>, \<open>port\<close>, \<open>path\<close>, \<open>method\<close>, \<open>headers\<close> and, when it has an
  address, \<open>localAddress\<close>; the fields \<open>agent\<close> and \<open>timeout\<close> of that type are never
  set. The port is the text of the URL's port or a default number.
\<close>

datatype port_value = PortText string | PortNumber nat

record 'hd request_options =
  opt_hostname :: string
  opt_port :: port_value
  opt_path :: string
  opt_method :: string
  opt_headers :: 'hd
  opt_localAddress :: "string option"
  opt_agent :: "agent option"
  opt_timeout :: "int option"

text \<open>The request made, by \<open>http.request\<close> or by \<open>https.request\<close>.\<close>

datatype 'hd client_request =
    HttpRequest (req_options: "'hd request_options")
  | HttpsRequest (req_options: "'hd request_options")

text \<open>
  \<open>createIPv6StreamRequest\<close>; the callback and the error handler, which only logs, are
  left out. \<open>new URL\<close> may throw, and the selection of the address may never return.
\<close>

definition createIPv6StreamRequest ::
  "(string \<Rightarrow> bool) \<Rightarrow> (string \<Rightarrow> url promise) \<Rightarrow> string \<Rightarrow> string \<Rightarrow> 'hd
     \<Rightarrow> string option \<Rightarrow> pool_state \<Rightarrow> ('hd client_request promise \<times> pool_state) option" where
  "createIPv6StreamRequest isIPv6 new_URL meth url hdrs ipv6 st =
     (case new_URL url of
        Rejected err \<Rightarrow> Some (Rejected err, st)
      | Resolved uri \<Rightarrow>
          let isHttps = (protocol uri = ''https:'')
          in case (if truthy ipv6 then Some (ipv6, st)
                   else if isIPv6RotationEnabled st then getNextIPFromPool isIPv6 st
                   else Some (None, st)) of
               None \<Rightarrow> None
             | Some (sourceIp, st1) \<Rightarrow>
                 let options =
                       \<lparr>opt_hostname = hostname uri,
                        opt_port = (if port uri \<noteq> [] then PortText (port uri)
                                    else PortNumber (if isHttps then 443 else 80)),
                        opt_path = pathname uri @ search uri,
                        opt_method = meth,
                        opt_headers = hdrs,
                        opt_localAddress = None,
                        opt_agent = None,
                        opt_timeout = None\<rparr>;
                     options1 = (if truthy sourceIp
                                 then options\<lparr>opt_localAddress := sourceIp\<rparr> else options)
                 in Some (Resolved (if isHttps then HttpsRequest options1
                                    else HttpRequest options1), st1))"

text \<open>
  The two shapes of call the dispatcher makes for a URL and the caller's options: the
  plain call, which carries no agent of the dispatcher's, and the call with exactly
  one agent, in the field of its own scheme, that keeps connections alive and has the
  timeout of 30000 ms.
\<close>

definition dispatcher_call :: "string \<Rightarrow> 'o \<Rightarrow> 'o axios_call \<Rightarrow> bool" where
  "dispatcher_call url options c =
     (case c of
        AxiosUrl u opts \<Rightarrow> u = url \<and> opts = options
      | AxiosConfig opts u ha hsa \<Rightarrow>
          opts = options \<and> u = url \<and>
          (case (ha, hsa) of
             (Some (HttpAgent a), None) \<Rightarrow> keepAlive a \<and> timeout a = 30000
           | (None, Some (HttpsAgent a)) \<Rightarrow> keepAlive a \<and> timeout a = 30000
           | _ \<Rightarrow> False))"

section \<open>Concrete hosts, shells and configurations\<close>

text \<open>Used below to run the definitions on explicit inputs.\<close>

definition no_interfaces :: "string \<Rightarrow> bool" where
  "no_interfaces name = False"

definition linux_host :: host where
  "linux_host = \<lparr>platform = ''linux'', networkInterfaces = no_interfaces\<rparr>"

definition accept_all :: "string \<Rightarrow> bool" where
  "accept_all s = True"

definition reject_all :: "string \<Rightarrow> bool" where
  "reject_all s = False"

text \<open>A validity check that rejects one text.\<close>

definition not_junk :: "string \<Rightarrow> bool" where
  "not_junk s = (s \<noteq> ''junk'')"

definition sample_addr :: "nat \<Rightarrow> string" where
  "sample_addr i = (if i = 0 then ''fd00:0:0:1::a'' else if i = 1 then ''fd00:0:0:1::b'' else ''fd00:0:0:1::c'')"

text \<open>The addresses a later pass generates.\<close>

definition later_addr :: "nat \<Rightarrow> string" where
  "later_addr i = (if i = 0 then ''fd00:0:0:1::d'' else ''fd00:0:0:1::e'')"

definition denied :: js_error where
  "denied = JsError None (Some ''RTNETLINK answers: Operation not permitted'')"

text \<open>Every command succeeds, and the interface is reported up.\<close>

definition shell_up :: shell where
  "shell_up k cmd = Resolved ''2: eth0: <BROADCAST,MULTICAST,UP,LOWER_UP> state UP''"

text \<open>Every command fails: with the answer for an address that is assigned already, or with a refusal.\<close>

definition shell_exists :: shell where
  "shell_exists k cmd = Rejected (JsError None (Some ''RTNETLINK answers: File exists''))"

definition shell_denied :: shell where
  "shell_denied k cmd = Rejected denied"

text \<open>Only the first command issued succeeds.\<close>

definition shell_first_only :: shell where
  "shell_first_only k cmd = (if k = 0 then shell_up k cmd else Rejected denied)"

definition cfg_2_2 :: config where
  "cfg_2_2 = \<lparr>ipv6Prefix = ''fd00:0:0'', ipv6Subnet = ''1'', interface = ''eth0'',
     desiredPoolSize = 2, poolManageInterval = 5000, poolAddBatchSize = 2, debug = False\<rparr>"

definition cfg_5_2 :: config where
  "cfg_5_2 = cfg_2_2\<lparr>desiredPoolSize := 5\<rparr>"

definition cfg_negative :: config where
  "cfg_negative = cfg_2_2\<lparr>desiredPoolSize := - 1\<rparr>"

text \<open>A URL parser that knows the two schemes, and two behaviours of \<open>axios\<close>.\<close>

definition sample_URL :: "string \<Rightarrow> url promise" where
  "sample_URL u =
     (if prefix ''https://'' u
      then Resolved \<lparr>protocol = ''https:'', hostname = ''cdn.example.com'', port = [],
                      pathname = ''/seg1.ts'', search = []\<rparr>
      else if prefix ''http://'' u
      then Resolved \<lparr>protocol = ''http:'', hostname = ''cdn.example.com'', port = ''8080'',
                      pathname = ''/seg1.ts'', search = ''?q=1''\<rparr>
      else Rejected (JsError (Some ''ERR_INVALID_URL'') (Some ''Invalid URL'')))"

text \<open>Requests through an agent fail with the given error code; plain requests succeed.\<close>

definition axios_bound_fails :: "string \<Rightarrow> (unit, string) axios" where
  "axios_bound_fails c k call =
     (case call of
        AxiosUrl u opts \<Rightarrow> Resolved ''#EXTM3U''
      | AxiosConfig opts u ha hsa \<Rightarrow> Rejected (JsError (Some c) None))"

text \<open>The pool state with the given addresses and index, started and idle.\<close>

definition running :: "string list \<Rightarrow> nat \<Rightarrow> pool_state" where
  "running pool idx =
     \<lparr>ipPool = pool, poolMutex = False, currentIPIndex = idx, initialized = True, poolTimer = True\<rparr>"

section \<open>Facts about the interface controller and one pass\<close>

lemma take_drop_length: "length (take n (drop k xs)) \<le> length xs"
  by simp

lemma js_slice_length: "length (js_slice xs a b) \<le> length xs"
  unfolding js_slice_def Let_def by (rule take_drop_length)

lemma js_slice_from_length: "length (js_slice_from xs n) \<le> length xs"
  by (simp add: js_slice_from_def js_slice_length)

lemma removeIPv6FromInterface_resolves:
  "\<exists>b. removeIPv6FromInterface h cfg sh ip log = (Resolved b, log @ [remove_command h cfg ip])"
  by (cases "sh (length log) (remove_command h cfg ip)")
     (auto simp: removeIPv6FromInterface_def execAsync_def)

lemma removeLoop_resolves:
  "removeLoop h cfg sh ips log = (Resolved (), log @ map (remove_command h cfg) ips)"
proof (induction ips arbitrary: log)
  case Nil
  show ?case by simp
next
  case (Cons ip ips)
  obtain b where "removeIPv6FromInterface h cfg sh ip log = (Resolved b, log @ [remove_command h cfg ip])"
    using removeIPv6FromInterface_resolves by blast
  then show ?case by (simp add: Cons.IH)
qed

lemma addIPv6ToInterface_value:
  "addIPv6ToInterface h cfg sh ip log =
     (Resolved (case sh (length log) (add_command h cfg ip) of
                  Resolved out \<Rightarrow> True | Rejected err \<Rightarrow> fileExists err),
      log @ [add_command h cfg ip])"
  by (cases "sh (length log) (add_command h cfg ip)")
     (auto simp: addIPv6ToInterface_def execAsync_def)

lemma js_includes_sublist: "js_includes s p = sublist p s"
  by (induction s) (simp_all add: sublist_Cons_right)

lemma js_includes_iff: "js_includes s p \<longleftrightarrow> (\<exists>pre post. s = pre @ p @ post)"
  by (simp add: js_includes_sublist sublist_def)

lemma fileExists_iff:
  "fileExists err \<longleftrightarrow> (\<exists>pre post. message err = Some (pre @ ''File exists'' @ post))"
proof (cases "message err")
  case None
  then show ?thesis by (simp add: fileExists_def)
next
  case (Some m)
  have "js_includes m ''File exists'' \<Longrightarrow> m \<noteq> []"
    by (auto simp: js_includes_iff)
  then show ?thesis using Some by (auto simp: fileExists_def js_includes_iff)
qed

lemma addLoop_resolves:
  "\<exists>added log'. addLoop h cfg sh gen i n acc log = (Resolved added, log')
      \<and> length added \<le> length acc + n"
proof (induction n arbitrary: i acc log)
  case 0
  show ?case by simp
next
  case (Suc n)
  let ?b = "case sh (length log) (add_command h cfg (gen i)) of
              Resolved out \<Rightarrow> True | Rejected err \<Rightarrow> fileExists err"
  obtain added log' where
    "addLoop h cfg sh gen (Suc i) n (if ?b then acc @ [gen i] else acc) (log @ [add_command h cfg (gen i)]) = (Resolved added, log')"
    "length added \<le> length (if ?b then acc @ [gen i] else acc) + n"
    using Suc.IH by blast
  then show ?case by (auto simp: Let_def addIPv6ToInterface_value split: if_splits)
qed

lemma replaceOldest_length:
  "length (ipPool (snd (replaceOldest cfg st))) \<le> length (ipPool st)"
  by (simp add: replaceOldest_def Let_def js_slice_from_length)

lemma manageIPPool_bound:
  assumes "0 \<le> desiredPoolSize cfg" "int (length (ipPool st)) \<le> desiredPoolSize cfg"
  shows "int (length (ipPool (fst (snd (manageIPPool h cfg sh gen st log))))) \<le> desiredPoolSize cfg"
proof (cases "poolMutex st")
  case True
  then show ?thesis using assms by (simp add: manageIPPool_def)
next
  case False
  let ?st0 = "st\<lparr>poolMutex := True\<rparr>"
  show ?thesis
  proof (cases "int (length (ipPool st)) \<ge> desiredPoolSize cfg")
    case True
    obtain rem st1 where ro: "replaceOldest cfg ?st0 = (rem, st1)" by (cases "replaceOldest cfg ?st0")
    have "length (ipPool st1) \<le> length (ipPool st)"
      using replaceOldest_length[of cfg ?st0] ro by simp
    with assms have "int (length (ipPool st1)) \<le> desiredPoolSize cfg" by linarith
    with True False ro show ?thesis
      by (simp add: manageIPPool_def Let_def removeLoop_resolves)
  next
    case lt: False
    let ?bt = "min (poolAddBatchSize cfg) (desiredPoolSize cfg - int (length (ipPool st)))"
    obtain added log' where
      al: "addLoop h cfg sh gen 0 (nat ?bt) [] log = (Resolved added, log')"
      and len: "length added \<le> length ([]::string list) + nat ?bt"
      using addLoop_resolves by blast
    have "int (length (ipPool st)) + int (length added) \<le> desiredPoolSize cfg"
      using len lt by (auto simp: min_def split: if_splits)
    with False lt al assms show ?thesis
      by (simp add: manageIPPool_def Let_def)
  qed
qed

text \<open>A pass that nothing interrupts is its two parts, one after the other.\<close>

lemma manageIPPool_split:
  "manageIPPool h cfg sh gen st log =
     (case manageIPPool_begin h cfg sh gen st log of
        None \<Rightarrow> (Resolved (), st, log)
      | Some (added, st1, log1) \<Rightarrow>
          (case manageIPPool_end added st1 of (r, st2) \<Rightarrow> (r, st2, log1)))"
  by (simp add: manageIPPool_def manageIPPool_begin_def manageIPPool_end_def Let_def
      split: prod.splits promise.splits)

section \<open>The pool never grows past the target\<close>

lemma getNextIPFromPool_frame:
  assumes "getNextIPFromPool isv st = Some r"
  shows "ipPool (snd r) = ipPool st \<and> initialized (snd r) = initialized st
           \<and> poolTimer (snd r) = poolTimer st \<and> poolMutex (snd r) = poolMutex st"
proof (rule getNextIPFromPool.raw_induct[where P = "\<lambda>isv st r. ipPool (snd r) = ipPool st \<and> initialized (snd r) = initialized st
           \<and> poolTimer (snd r) = poolTimer st \<and> poolMutex (snd r) = poolMutex st", OF _ assms])
  fix f :: "(string \<Rightarrow> bool) \<Rightarrow> pool_state \<Rightarrow> (string option \<times> pool_state) option"
  fix isv :: "string \<Rightarrow> bool" and st :: pool_state and r :: "string option \<times> pool_state"
  let ?st' = "st\<lparr>currentIPIndex := (currentIPIndex st + 1) mod length (ipPool st)\<rparr>"
  assume IH: "\<And>isv st y. f isv st = Some y \<Longrightarrow> ipPool (snd y) = ipPool st \<and> initialized (snd y) = initialized st
           \<and> poolTimer (snd y) = poolTimer st \<and> poolMutex (snd y) = poolMutex st"
  assume eq: "(if \<not> initialized st \<or> length (ipPool st) = 0 then Some (None, st)
      else let index = currentIPIndex st; st' = ?st'
           in if index < length (ipPool st') \<and> isv (ipPool st' ! index)
              then Some (Some (ipPool st' ! index), st')
              else f isv st') = Some r"
  show "ipPool (snd r) = ipPool st \<and> initialized (snd r) = initialized st
           \<and> poolTimer (snd r) = poolTimer st \<and> poolMutex (snd r) = poolMutex st"
  proof (cases "\<not> initialized st \<or> length (ipPool st) = 0")
    case True
    with eq show ?thesis by auto
  next
    case False
    show ?thesis
    proof (cases "currentIPIndex st < length (ipPool st) \<and> isv (ipPool st ! currentIPIndex st)")
      case True
      with False eq show ?thesis by (auto simp: Let_def)
    next
      case nv: False
      with False eq have "f isv ?st' = Some r" by (auto simp: Let_def)
      from IH[OF this] show ?thesis by simp
    qed
  qed
qed

lemma initIPv6Pool_bound:
  assumes "0 \<le> desiredPoolSize cfg" "int (length (ipPool st)) \<le> desiredPoolSize cfg"
  shows "int (length (ipPool (fst (snd (initIPv6Pool h cfg sh gen st log))))) \<le> desiredPoolSize cfg"
proof -
  have m: "int (length (ipPool s'))  \<le> desiredPoolSize cfg"
    if "manageIPPool h cfg sh gen st l = (r, s', l')" for l r s' l'
    using manageIPPool_bound[OF assms, of h sh gen l] that by simp
  show ?thesis
    using assms
    by (auto simp: initIPv6Pool_def split: prod.splits promise.splits dest: m)
qed

lemma stopIPv6Pool_bound:
  assumes "0 \<le> desiredPoolSize cfg" "int (length (ipPool st)) \<le> desiredPoolSize cfg"
  shows "int (length (ipPool (fst (snd (stopIPv6Pool h cfg sh st log))))) \<le> desiredPoolSize cfg"
  using assms by (simp add: stopIPv6Pool_def removeLoop_resolves Let_def)

lemma reachable_bound:
  assumes "reachable h cfg isv st" "0 \<le> desiredPoolSize cfg"
  shows "int (length (ipPool st)) \<le> desiredPoolSize cfg"
  using assms
proof (induction rule: reachable.induct)
  case r_start
  then show ?case by (simp add: initial_state_def)
next
  case (r_init st sh gen log r st' log')
  then show ?case using initIPv6Pool_bound[of cfg st h sh gen log] by simp
next
  case (r_tick st sh gen log r st' log')
  then show ?case using manageIPPool_bound[of cfg st h sh gen log] by simp
next
  case (r_next st a st')
  then show ?case using getNextIPFromPool_frame[of isv st "(a, st')"] by simp
next
  case (r_stop st sh log r st' log')
  then show ?case using stopIPv6Pool_bound[of cfg st h sh log] by simp
qed

section \<open>Runs on explicit inputs\<close>

lemmas run_defs =
  initIPv6Pool_def checkInterface_def manageIPPool_def replaceOldest_def stopIPv6Pool_def
  execAsync_def check_command_def add_command_def remove_command_def
  addIPv6ToInterface_def removeIPv6FromInterface_def fileExists_def
  js_slice_def js_slice_from_def
  linux_host_def cfg_2_2_def cfg_5_2_def cfg_negative_def shell_up_def shell_first_only_def
  denied_def sample_addr_def initial_state_def running_def accept_all_def reject_all_def Let_def

lemma run_init_2_2:
  "initIPv6Pool linux_host cfg_2_2 shell_up sample_addr initial_state [] =
     (Resolved True, running [''fd00:0:0:1::a'', ''fd00:0:0:1::b''] 0,
      [''ip link show eth0'', ''ip -6 addr add fd00:0:0:1::a/128 dev eth0'',
       ''ip -6 addr add fd00:0:0:1::b/128 dev eth0''])"
  by (simp add: run_defs numeral_2_eq_2)

lemma run_next_2_2:
  "getNextIPFromPool accept_all (running [''fd00:0:0:1::a'', ''fd00:0:0:1::b''] 0) =
     Some (Some ''fd00:0:0:1::a'', running [''fd00:0:0:1::a'', ''fd00:0:0:1::b''] 1)"
  by (subst getNextIPFromPool.simps) (simp add: run_defs)

lemma run_replace_2_2:
  "manageIPPool linux_host cfg_2_2 shell_up sample_addr
       (running [''fd00:0:0:1::a'', ''fd00:0:0:1::b''] 1) [] =
     (Resolved (), running [] 1,
      [''ip -6 addr del fd00:0:0:1::a/128 dev eth0'', ''ip -6 addr del fd00:0:0:1::b/128 dev eth0''])"
  by (simp add: run_defs)

lemma run_grow_partial:
  "manageIPPool linux_host cfg_2_2 shell_first_only sample_addr (running [] 1) [] =
     (Resolved (), running [''fd00:0:0:1::a''] 1,
      [''ip -6 addr add fd00:0:0:1::a/128 dev eth0'', ''ip -6 addr add fd00:0:0:1::b/128 dev eth0''])"
  by (simp add: run_defs numeral_2_eq_2)

lemma reach_2_2: "reachable linux_host cfg_2_2 accept_all (running [''fd00:0:0:1::a'', ''fd00:0:0:1::b''] 0)"
  by (rule r_init[OF r_start run_init_2_2])

section \<open>The rotation index\<close>

text \<open>
  Claim C1 says that in every reachable state with a pool that is not empty the index
  \<open>currentIPIndex\<close> is below the length of the pool. The code does not keep this: a
  replacement pass that empties the pool leaves the index as it was (the reset is
  guarded by \<open>ipPool.length > 0\<close>, whereas \<open>stopIPv6Pool\<close> resets it when it empties the
  pool), and a later growth pass in which an add fails refills the pool with fewer
  addresses than the index. The run: start with target 2 and batch 2 (pool of two,
  index 0), one \<open>getNextIPFromPool\<close> (index 1), a pass that removes both addresses
  (pool empty, index still 1), a pass in which only the first add succeeds. The state
  reached has one address and index 1; the next \<open>getNextIPFromPool\<close> reads past the
  end of the pool, takes the missing entry for an invalid one and returns the entry
  at index 0.
\<close>

theorem stale_index_reachable:
  "reachable linux_host cfg_2_2 accept_all (running [''fd00:0:0:1::a''] 1)
   \<and> length (ipPool (running [''fd00:0:0:1::a''] 1)) > 0
   \<and> \<not> currentIPIndex (running [''fd00:0:0:1::a''] 1) < length (ipPool (running [''fd00:0:0:1::a''] 1))
   \<and> getNextIPFromPool accept_all (running [''fd00:0:0:1::a''] 1) =
       Some (Some ''fd00:0:0:1::a'', running [''fd00:0:0:1::a''] 0)"
proof -
  have r1: "reachable linux_host cfg_2_2 accept_all (running [''fd00:0:0:1::a'', ''fd00:0:0:1::b''] 1)"
    by (rule r_next[OF reach_2_2 run_next_2_2])
  have r2: "reachable linux_host cfg_2_2 accept_all (running [] 1)"
    by (rule r_tick[OF r1 _ run_replace_2_2]) (simp add: running_def)
  have r3: "reachable linux_host cfg_2_2 accept_all (running [''fd00:0:0:1::a''] 1)"
    by (rule r_tick[OF r2 _ run_grow_partial]) (simp add: running_def)
  have n: "getNextIPFromPool accept_all (running [''fd00:0:0:1::a''] 1) =
             Some (Some ''fd00:0:0:1::a'', running [''fd00:0:0:1::a''] 0)"
    by (simp add: getNextIPFromPool.simps running_def accept_all_def)
  show ?thesis using r3 n by (simp add: running_def)
qed

section \<open>Pool size after a pass\<close>

lemma run_init_negative:
  "initIPv6Pool linux_host cfg_negative shell_up sample_addr initial_state [] =
     (Resolved True, running [] 0, [''ip link show eth0''])"
  by (simp add: run_defs)

lemma run_pass_negative:
  "manageIPPool linux_host cfg_negative shell_up sample_addr (running [] 0) [] =
     (Resolved (), running [] 0, [])"
  by (simp add: run_defs)

text \<open>
  Claim C4, as amended: in every state the module can reach in which the pool is
  started, for any batch size and any target size that is not negative, a completed
  reconciliation pass (with any outcome of the interface commands and any generated
  addresses) leaves at most \<open>desiredPoolSize\<close> addresses in the pool.
\<close>

theorem reconcile_size_bound:
  assumes "reachable h cfg isIPv6 st"
    and "initialized st"
    and "0 \<le> desiredPoolSize cfg"
    and "manageIPPool h cfg sh gen st log = (r, st', log')"
  shows "int (length (ipPool st')) \<le> desiredPoolSize cfg"
proof -
  have "int (length (ipPool st)) \<le> desiredPoolSize cfg"
    using assms(1,3) by (rule reachable_bound)
  from manageIPPool_bound[OF assms(3) this, of h sh gen log] assms(4)
  show ?thesis by simp
qed

theorem reconcile_size_bound_witness:
  "int (length (ipPool (running [] 1))) \<le> desiredPoolSize cfg_2_2"
proof -
  have r1: "reachable linux_host cfg_2_2 accept_all (running [''fd00:0:0:1::a'', ''fd00:0:0:1::b''] 1)"
    by (rule r_next[OF reach_2_2 run_next_2_2])
  have i: "initialized (running [''fd00:0:0:1::a'', ''fd00:0:0:1::b''] 1)"
    by (simp add: running_def)
  have d: "0 \<le> desiredPoolSize cfg_2_2" by (simp add: cfg_2_2_def)
  show ?thesis by (rule reconcile_size_bound[OF r1 i d run_replace_2_2])
qed

text \<open>
  C4 as stated, for any target size, fails on a negative one: with
  \<open>IPV6_POOL_SIZE=-1\<close> the start succeeds, every pass leaves the pool empty, and
  the length 0 is above the target.
\<close>

theorem negative_target_counterexample:
  "reachable linux_host cfg_negative accept_all (running [] 0)
   \<and> initialized (running [] 0)
   \<and> manageIPPool linux_host cfg_negative shell_up sample_addr (running [] 0) [] =
       (Resolved (), running [] 0, [])
   \<and> \<not> int (length (ipPool (running [] 0))) \<le> desiredPoolSize cfg_negative"
proof -
  have "reachable linux_host cfg_negative accept_all (running [] 0)"
    by (rule r_init[OF r_start run_init_negative])
  then show ?thesis
    using run_pass_negative by (simp add: running_def cfg_negative_def cfg_2_2_def)
qed

section \<open>A pool of invalid entries\<close>

lemma getNextIPFromPool_all_invalid:
  assumes "getNextIPFromPool isv st = Some r"
  shows "\<not> all_invalid isv st"
proof (rule getNextIPFromPool.raw_induct[where P = "\<lambda>isv st r. \<not> all_invalid isv st", OF _ assms])
  fix f :: "(string \<Rightarrow> bool) \<Rightarrow> pool_state \<Rightarrow> (string option \<times> pool_state) option"
  fix isv :: "string \<Rightarrow> bool" and st :: pool_state and r :: "string option \<times> pool_state"
  let ?st' = "st\<lparr>currentIPIndex := (currentIPIndex st + 1) mod length (ipPool st)\<rparr>"
  assume IH: "\<And>isv st y. f isv st = Some y \<Longrightarrow> \<not> all_invalid isv st"
  assume eq: "(if \<not> initialized st \<or> length (ipPool st) = 0 then Some (None, st)
      else let index = currentIPIndex st; st' = ?st'
           in if index < length (ipPool st') \<and> isv (ipPool st' ! index)
              then Some (Some (ipPool st' ! index), st')
              else f isv st') = Some r"
  show "\<not> all_invalid isv st"
  proof
    assume a: "all_invalid isv st"
    then have inv: "all_invalid isv ?st'" by (simp add: all_invalid_def)
    from a have "currentIPIndex st < length (ipPool st) \<Longrightarrow> \<not> isv (ipPool st ! currentIPIndex st)"
      by (simp add: all_invalid_def list_all_length)
    with a eq have "f isv ?st' = Some r"
      by (auto simp: Let_def all_invalid_def split: if_splits)
    from IH[OF this] inv show False by simp
  qed
qed

lemma all_invalid_never_returns: "all_invalid isv st \<Longrightarrow> getNextIPFromPool isv st = None"
  using getNextIPFromPool_all_invalid by (cases "getNextIPFromPool isv st") auto

text \<open>
  Claim C3 says that on an initialized pool whose entries all fail the validity check
  \<open>getNextIPFromPool\<close> ends after one cycle and returns nothing. The code has no
  such bound: the function calls itself again after every invalid entry, and on a pool
  of one entry that the check rejects it never returns.
\<close>

theorem invalid_pool_never_returns:
  "all_invalid reject_all (running [''2001:db8:1000:1:2:3:4''] 0)
   \<and> getNextIPFromPool reject_all (running [''2001:db8:1000:1:2:3:4''] 0) = None"
proof -
  have a: "all_invalid reject_all (running [''2001:db8:1000:1:2:3:4''] 0)"
    by (simp add: all_invalid_def running_def reject_all_def)
  from a all_invalid_never_returns[OF a] show ?thesis by simp
qed

section \<open>Adding an address\<close>

lemma exists_message: "\<exists>pre post. ''RTNETLINK answers: File exists'' = pre @ ''File exists'' @ post"
proof -
  have "js_includes ''RTNETLINK answers: File exists'' ''File exists''" by simp
  then show ?thesis by (rule iffD1[OF js_includes_iff])
qed

lemma denied_message:
  "\<not> (\<exists>pre post. ''RTNETLINK answers: Operation not permitted'' = pre @ ''File exists'' @ post)"
proof -
  have "\<not> js_includes ''RTNETLINK answers: Operation not permitted'' ''File exists''" by simp
  then show ?thesis unfolding js_includes_iff .
qed

text \<open>
  Claim C9: for every address, \<open>addIPv6ToInterface\<close> resolves with \<open>true\<close> when the
  command succeeds; when the command fails it resolves with \<open>true\<close> if the error has a
  message in which the text \<open>File exists\<close> occurs, which is how an address that is
  assigned already shows (the add is idempotent), and with \<open>false\<close> on every other
  failure; in no case does the promise reject.
\<close>

theorem addIPv6ToInterface_outcome:
  "(case sh (length log) (add_command h cfg ip) of
      Resolved out \<Rightarrow> fst (addIPv6ToInterface h cfg sh ip log) = Resolved True
    | Rejected err \<Rightarrow>
        fst (addIPv6ToInterface h cfg sh ip log) =
          Resolved (\<exists>pre post. message err = Some (pre @ ''File exists'' @ post)))"
  by (cases "sh (length log) (add_command h cfg ip)")
     (simp_all add: addIPv6ToInterface_value fileExists_iff)

theorem addIPv6ToInterface_outcome_witness:
  "fst (addIPv6ToInterface linux_host cfg_2_2 shell_up ''fd00:0:0:1::a'' []) = Resolved True
   \<and> fst (addIPv6ToInterface linux_host cfg_2_2 shell_exists ''fd00:0:0:1::a'' []) = Resolved True
   \<and> fst (addIPv6ToInterface linux_host cfg_2_2 shell_denied ''fd00:0:0:1::a'' []) = Resolved False"
proof -
  have a: "fst (addIPv6ToInterface linux_host cfg_2_2 shell_up ''fd00:0:0:1::a'' []) = Resolved True"
    using addIPv6ToInterface_outcome[where sh = shell_up and log = "[]" and h = linux_host
        and cfg = cfg_2_2 and ip = "''fd00:0:0:1::a''"]
    by (simp add: shell_up_def)
  have b: "fst (addIPv6ToInterface linux_host cfg_2_2 shell_exists ''fd00:0:0:1::a'' []) = Resolved True"
    using addIPv6ToInterface_outcome[where sh = shell_exists and log = "[]" and h = linux_host
        and cfg = cfg_2_2 and ip = "''fd00:0:0:1::a''"] exists_message
    by (simp add: shell_exists_def)
  have c: "fst (addIPv6ToInterface linux_host cfg_2_2 shell_denied ''fd00:0:0:1::a'' []) = Resolved False"
    using addIPv6ToInterface_outcome[where sh = shell_denied and log = "[]" and h = linux_host
        and cfg = cfg_2_2 and ip = "''fd00:0:0:1::a''"] denied_message
    by (simp add: shell_denied_def denied_def)
  show ?thesis using a b c by (intro conjI)
qed

section \<open>Stopping the pool\<close>

text \<open>
  With no pass in flight, \<open>stopIPv6Pool\<close> on a started pool issues the remove command
  of every address of the pool, in order, whatever the commands answer, and leaves
  the pool empty, the index 0 and the pool not started; on a pool that is not started
  it issues nothing, changes nothing and resolves; and a second call right after any
  call is such a no-op.
\<close>

lemma stop_drains_pool:
  "(initialized st \<longrightarrow>
      stopIPv6Pool h cfg sh st log =
        (Resolved (),
         st\<lparr>ipPool := [], currentIPIndex := 0, initialized := False, poolTimer := False\<rparr>,
         log @ map (remove_command h cfg) (ipPool st)))
   \<and> (\<not> initialized st \<longrightarrow> stopIPv6Pool h cfg sh st log = (Resolved (), st, log))
   \<and> stopIPv6Pool h cfg sh2 (fst (snd (stopIPv6Pool h cfg sh st log)))
         (snd (snd (stopIPv6Pool h cfg sh st log))) =
       (Resolved (), fst (snd (stopIPv6Pool h cfg sh st log)),
        snd (snd (stopIPv6Pool h cfg sh st log)))"
  by (cases "poolTimer st") (simp_all add: stopIPv6Pool_def removeLoop_resolves Let_def)

lemma stop_drains_pool_run:
  "stopIPv6Pool linux_host cfg_2_2 shell_first_only
       (running [''fd00:0:0:1::a'', ''fd00:0:0:1::b''] 1) [] =
     (Resolved (),
      \<lparr>ipPool = [], poolMutex = False, currentIPIndex = 0, initialized = False, poolTimer = False\<rparr>,
      [''ip -6 addr del fd00:0:0:1::a/128 dev eth0'', ''ip -6 addr del fd00:0:0:1::b/128 dev eth0''])
   \<and> stopIPv6Pool linux_host cfg_2_2 shell_up initial_state [] = (Resolved (), initial_state, [])"
  using stop_drains_pool[of "running [''fd00:0:0:1::a'', ''fd00:0:0:1::b''] 1" linux_host cfg_2_2 shell_first_only "[]" shell_up]
    stop_drains_pool[of initial_state linux_host cfg_2_2 shell_up "[]" shell_up]
  by (simp add: running_def initial_state_def remove_command_def linux_host_def cfg_2_2_def)

lemma run_init_5_2:
  "initIPv6Pool linux_host cfg_5_2 shell_up sample_addr initial_state [] =
     (Resolved True, running [''fd00:0:0:1::a'', ''fd00:0:0:1::b''] 0,
      [''ip link show eth0'', ''ip -6 addr add fd00:0:0:1::a/128 dev eth0'',
       ''ip -6 addr add fd00:0:0:1::b/128 dev eth0''])"
  by (simp add: run_defs numeral_2_eq_2)

lemma run_begin_5_2:
  "manageIPPool_begin linux_host cfg_5_2 shell_up later_addr
       (running [''fd00:0:0:1::a'', ''fd00:0:0:1::b''] 0) [] =
     Some (Resolved [''fd00:0:0:1::d'', ''fd00:0:0:1::e''],
           \<lparr>ipPool = [''fd00:0:0:1::a'', ''fd00:0:0:1::b''], poolMutex = True,
            currentIPIndex = 0, initialized = True, poolTimer = True\<rparr>,
           [''ip -6 addr add fd00:0:0:1::d/128 dev eth0'',
            ''ip -6 addr add fd00:0:0:1::e/128 dev eth0''])"
  by (simp add: manageIPPool_begin_def later_addr_def run_defs numeral_2_eq_2)

lemma run_stop_mid_pass:
  "stopIPv6Pool linux_host cfg_5_2 shell_up
       \<lparr>ipPool = [''fd00:0:0:1::a'', ''fd00:0:0:1::b''], poolMutex = True,
        currentIPIndex = 0, initialized = True, poolTimer = True\<rparr>
       [''ip -6 addr add fd00:0:0:1::d/128 dev eth0'',
        ''ip -6 addr add fd00:0:0:1::e/128 dev eth0''] =
     (Resolved (),
      \<lparr>ipPool = [], poolMutex = True, currentIPIndex = 0, initialized = False, poolTimer = False\<rparr>,
      [''ip -6 addr add fd00:0:0:1::d/128 dev eth0'',
       ''ip -6 addr add fd00:0:0:1::e/128 dev eth0'',
       ''ip -6 addr del fd00:0:0:1::a/128 dev eth0'',
       ''ip -6 addr del fd00:0:0:1::b/128 dev eth0''])"
  by (simp add: run_defs)

text \<open>
  Claim C7 says that after \<open>stopIPv6Pool\<close> on a started pool the pool is empty and
  every address has had its removal attempted. The code does not keep this when a
  growth pass is in flight: \<open>stopIPv6Pool\<close> does not look at \<open>poolMutex\<close>, and the pass,
  once its last add returns, appends its addresses to the pool that was cleared
  meanwhile. The run, with target 5 and batch 2: a started pool of two addresses; a
  timer pass issues its two adds and is suspended at the last one; \<open>stopIPv6Pool\<close>
  runs to its end (both removals, pool empty, not started); the pass resumes and
  appends its two addresses. The pool then holds two addresses that are assigned to
  the interface while the pool is not started, and a further \<open>stopIPv6Pool\<close> issues
  no command and leaves them.
\<close>

theorem stop_during_pass:
  "reachable linux_host cfg_5_2 accept_all (running [''fd00:0:0:1::a'', ''fd00:0:0:1::b''] 0)
   \<and> manageIPPool_begin linux_host cfg_5_2 shell_up later_addr
         (running [''fd00:0:0:1::a'', ''fd00:0:0:1::b''] 0) [] =
       Some (Resolved [''fd00:0:0:1::d'', ''fd00:0:0:1::e''],
             \<lparr>ipPool = [''fd00:0:0:1::a'', ''fd00:0:0:1::b''], poolMutex = True,
              currentIPIndex = 0, initialized = True, poolTimer = True\<rparr>,
             [''ip -6 addr add fd00:0:0:1::d/128 dev eth0'',
              ''ip -6 addr add fd00:0:0:1::e/128 dev eth0''])
   \<and> stopIPv6Pool linux_host cfg_5_2 shell_up
         \<lparr>ipPool = [''fd00:0:0:1::a'', ''fd00:0:0:1::b''], poolMutex = True,
          currentIPIndex = 0, initialized = True, poolTimer = True\<rparr>
         [''ip -6 addr add fd00:0:0:1::d/128 dev eth0'',
          ''ip -6 addr add fd00:0:0:1::e/128 dev eth0''] =
       (Resolved (),
        \<lparr>ipPool = [], poolMutex = True, currentIPIndex = 0, initialized = False, poolTimer = False\<rparr>,
        [''ip -6 addr add fd00:0:0:1::d/128 dev eth0'',
         ''ip -6 addr add fd00:0:0:1::e/128 dev eth0'',
         ''ip -6 addr del fd00:0:0:1::a/128 dev eth0'',
         ''ip -6 addr del fd00:0:0:1::b/128 dev eth0''])
   \<and> manageIPPool_end (Resolved [''fd00:0:0:1::d'', ''fd00:0:0:1::e''])
         \<lparr>ipPool = [], poolMutex = True, currentIPIndex = 0, initialized = False, poolTimer = False\<rparr> =
       (Resolved (),
        \<lparr>ipPool = [''fd00:0:0:1::d'', ''fd00:0:0:1::e''], poolMutex = False, currentIPIndex = 0,
         initialized = False, poolTimer = False\<rparr>)
   \<and> stopIPv6Pool linux_host cfg_5_2 shell_up
         \<lparr>ipPool = [''fd00:0:0:1::d'', ''fd00:0:0:1::e''], poolMutex = False, currentIPIndex = 0,
          initialized = False, poolTimer = False\<rparr> [] =
       (Resolved (),
        \<lparr>ipPool = [''fd00:0:0:1::d'', ''fd00:0:0:1::e''], poolMutex = False, currentIPIndex = 0,
         initialized = False, poolTimer = False\<rparr>, [])"
proof -
  have r: "reachable linux_host cfg_5_2 accept_all (running [''fd00:0:0:1::a'', ''fd00:0:0:1::b''] 0)"
    by (rule r_init[OF r_start run_init_5_2])
  have e: "manageIPPool_end (Resolved [''fd00:0:0:1::d'', ''fd00:0:0:1::e''])
         \<lparr>ipPool = [], poolMutex = True, currentIPIndex = 0, initialized = False, poolTimer = False\<rparr> =
       (Resolved (),
        \<lparr>ipPool = [''fd00:0:0:1::d'', ''fd00:0:0:1::e''], poolMutex = False, currentIPIndex = 0,
         initialized = False, poolTimer = False\<rparr>)"
    by (simp add: manageIPPool_end_def)
  have s: "stopIPv6Pool linux_host cfg_5_2 shell_up
         \<lparr>ipPool = [''fd00:0:0:1::d'', ''fd00:0:0:1::e''], poolMutex = False, currentIPIndex = 0,
          initialized = False, poolTimer = False\<rparr> [] =
       (Resolved (),
        \<lparr>ipPool = [''fd00:0:0:1::d'', ''fd00:0:0:1::e''], poolMutex = False, currentIPIndex = 0,
         initialized = False, poolTimer = False\<rparr>, [])"
    by (simp add: stopIPv6Pool_def)
  show ?thesis
    by (intro conjI) (rule r run_begin_5_2 run_stop_mid_pass e s)+
qed

section \<open>Replacement and growth\<close>

lemma all_succeed_add:
  assumes "\<forall>k cmd. \<exists>out. sh k cmd = Resolved out"
  shows "addIPv6ToInterface h cfg sh ip log = (Resolved True, log @ [add_command h cfg ip])"
proof -
  obtain out where "sh (length log) (add_command h cfg ip) = Resolved out"
    using assms by blast
  then show ?thesis by (simp add: addIPv6ToInterface_value)
qed

lemma shell_up_succeeds: "\<forall>k cmd. \<exists>out. shell_up k cmd = Resolved out"
  by (simp add: shell_up_def)

text \<open>
  Claim C5, as amended: from a pool of 5 addresses with target 5 and batch 2, the
  next pass removes the 2 oldest addresses and adds none, whatever the commands
  answer, so the pool has 3 addresses after that pass; the pass after it, with all
  interface operations succeeding, appends 2 new addresses and brings the pool back
  to 5.
\<close>

theorem replacement_then_growth:
  assumes "\<not> poolMutex st" and "ipPool st = [a, b, c, d, e]"
    and "desiredPoolSize cfg = 5" and "poolAddBatchSize cfg = 2"
  shows "ipPool (fst (snd (manageIPPool h cfg sh gen st log))) = [c, d, e]
         \<and> snd (snd (manageIPPool h cfg sh gen st log)) =
             log @ [remove_command h cfg a, remove_command h cfg b]
         \<and> ((\<forall>k cmd. \<exists>out. sh2 k cmd = Resolved out) \<longrightarrow>
              ipPool (fst (snd (manageIPPool h cfg sh2 gen2
                                  (fst (snd (manageIPPool h cfg sh gen st log))) log2))) =
                [c, d, e, gen2 0, gen2 1]
              \<and> snd (snd (manageIPPool h cfg sh2 gen2
                                  (fst (snd (manageIPPool h cfg sh gen st log))) log2)) =
                  log2 @ [add_command h cfg (gen2 0), add_command h cfg (gen2 1)])"
proof -
  let ?st1 = "fst (snd (manageIPPool h cfg sh gen st log))"
  have p1: "manageIPPool h cfg sh gen st log =
      (Resolved (),
       st\<lparr>poolMutex := True, ipPool := [c, d, e],
          currentIPIndex := (if 3 \<le> currentIPIndex st then 0 else currentIPIndex st),
          poolMutex := False\<rparr>,
       log @ [remove_command h cfg a, remove_command h cfg b])"
    using assms
    by (simp add: manageIPPool_def replaceOldest_def js_slice_def js_slice_from_def Let_def
        removeLoop_resolves)
  have m: "\<not> poolMutex ?st1" and q: "ipPool ?st1 = [c, d, e]"
    by (simp_all add: p1)
  have p2: "ipPool (fst (snd (manageIPPool h cfg sh2 gen2 ?st1 log2))) = [c, d, e, gen2 0, gen2 1]
            \<and> snd (snd (manageIPPool h cfg sh2 gen2 ?st1 log2)) =
                  log2 @ [add_command h cfg (gen2 0), add_command h cfg (gen2 1)]"
    if ok: "\<forall>k cmd. \<exists>out. sh2 k cmd = Resolved out"
    using m q assms(3,4)
    by (simp add: manageIPPool_def Let_def numeral_2_eq_2 all_succeed_add[OF ok])
  show ?thesis using p1 p2 by simp
qed

theorem replacement_then_growth_witness:
  "ipPool (fst (snd (manageIPPool linux_host cfg_5_2 shell_first_only sample_addr
       (running [''fd00::1'', ''fd00::2'', ''fd00::3'', ''fd00::4'', ''fd00::5''] 4) []))) =
     [''fd00::3'', ''fd00::4'', ''fd00::5'']
   \<and> ipPool (fst (snd (manageIPPool linux_host cfg_5_2 shell_up sample_addr
       (fst (snd (manageIPPool linux_host cfg_5_2 shell_first_only sample_addr
          (running [''fd00::1'', ''fd00::2'', ''fd00::3'', ''fd00::4'', ''fd00::5''] 4) []))) []))) =
     [''fd00::3'', ''fd00::4'', ''fd00::5'', ''fd00:0:0:1::a'', ''fd00:0:0:1::b'']"
proof -
  have a: "\<not> poolMutex (running [''fd00::1'', ''fd00::2'', ''fd00::3'', ''fd00::4'', ''fd00::5''] 4)"
    and b: "ipPool (running [''fd00::1'', ''fd00::2'', ''fd00::3'', ''fd00::4'', ''fd00::5''] 4) =
              [''fd00::1'', ''fd00::2'', ''fd00::3'', ''fd00::4'', ''fd00::5'']"
    by (simp_all add: running_def)
  have c: "desiredPoolSize cfg_5_2 = 5" and d: "poolAddBatchSize cfg_5_2 = 2"
    by (simp_all add: cfg_5_2_def cfg_2_2_def)
  show ?thesis
    using replacement_then_growth[OF a b c d, of linux_host shell_first_only sample_addr "[]" shell_up sample_addr "[]"]
      shell_up_succeeds
    by (simp add: sample_addr_def)
qed

text \<open>
  C5 as stated has the removal and the growth in the same pass and the size
  unchanged across it. On the code the pass that removes adds nothing (\<open>needToAdd\<close> is
  computed before the removal): the pool has 3 addresses after it, and the only
  commands issued are the two removals.
\<close>

theorem same_pass_growth_counterexample:
  "length (ipPool (fst (snd (manageIPPool linux_host cfg_5_2 shell_up sample_addr
       (running [''fd00::1'', ''fd00::2'', ''fd00::3'', ''fd00::4'', ''fd00::5''] 0) [])))) = 3
   \<and> snd (snd (manageIPPool linux_host cfg_5_2 shell_up sample_addr
       (running [''fd00::1'', ''fd00::2'', ''fd00::3'', ''fd00::4'', ''fd00::5''] 0) [])) =
      [''ip -6 addr del fd00::1/128 dev eth0'', ''ip -6 addr del fd00::2/128 dev eth0'']"
  by (simp add: run_defs)

section \<open>Round-robin order\<close>

lemma getNextIPFromPool_valid:
  assumes "initialized st" and "currentIPIndex st < length (ipPool st)"
    and "isv (ipPool st ! currentIPIndex st)"
  shows "getNextIPFromPool isv st =
           Some (Some (ipPool st ! currentIPIndex st),
                 st\<lparr>currentIPIndex := (currentIPIndex st + 1) mod length (ipPool st)\<rparr>)"
proof -
  have "ipPool st \<noteq> []" using assms(2) by auto
  with assms show ?thesis
    by (subst getNextIPFromPool.simps) (simp add: Let_def)
qed

lemma callNext_valid:
  assumes "initialized st" and "currentIPIndex st < length (ipPool st)"
    and "list_all isv (ipPool st)"
  shows "callNext isv k st =
           Some (map (\<lambda>i. Some (ipPool st ! ((currentIPIndex st + i) mod length (ipPool st)))) [0..<k],
                 st\<lparr>currentIPIndex := (currentIPIndex st + k) mod length (ipPool st)\<rparr>)"
  using assms
proof (induction k arbitrary: st)
  case 0
  then show ?case by simp
next
  case (Suc k)
  let ?n = "length (ipPool st)"
  let ?c = "currentIPIndex st"
  let ?st1 = "st\<lparr>currentIPIndex := (?c + 1) mod ?n\<rparr>"
  have pos: "0 < ?n" using Suc.prems(2) by auto
  have v: "isv (ipPool st ! ?c)"
    using Suc.prems(2,3) by (simp add: list_all_length)
  have step: "getNextIPFromPool isv st = Some (Some (ipPool st ! ?c), ?st1)"
    using Suc.prems(1,2) v by (rule getNextIPFromPool_valid)
  have rest: "callNext isv k ?st1 =
      Some (map (\<lambda>i. Some (ipPool ?st1 ! ((currentIPIndex ?st1 + i) mod length (ipPool ?st1)))) [0..<k],
            ?st1\<lparr>currentIPIndex := (currentIPIndex ?st1 + k) mod length (ipPool ?st1)\<rparr>)"
    using Suc.prems pos by (intro Suc.IH) simp_all
  have idx: "(Suc ?c mod ?n + i) mod ?n = Suc (?c + i) mod ?n" for i
    by (simp add: mod_add_left_eq)
  have m: "map (\<lambda>i. Some (ipPool st ! ((?c + i) mod ?n))) [0..<Suc k] =
           Some (ipPool st ! ?c) # map (\<lambda>i. Some (ipPool st ! ((?c + Suc i) mod ?n))) [0..<k]"
    using Suc.prems(2) by (simp add: upt_conv_Cons map_Suc_upt[symmetric] del: upt_Suc)
  show ?case
    unfolding m using step rest by (simp add: idx)
qed

lemma cycle_in_range:
  assumes "initialized st" and "list_all isv (ipPool st)"
    and "currentIPIndex st < length (ipPool st)"
  shows "callNext isv (length (ipPool st)) st =
           Some (map Some (rotate (currentIPIndex st) (ipPool st)), st)"
proof -
  let ?n = "length (ipPool st)"
  let ?c = "currentIPIndex st"
  have l: "map (\<lambda>i. Some (ipPool st ! ((?c + i) mod ?n))) [0..<?n] =
           map Some (rotate ?c (ipPool st))"
    by (rule nth_equalityI) (simp_all add: nth_rotate)
  have "(?c + ?n) mod ?n = ?c"
    using assms(3) by simp
  then have s: "st\<lparr>currentIPIndex := (?c + ?n) mod ?n\<rparr> = st"
    by (simp del: mod_add_self2)
  have "callNext isv ?n st =
          Some (map (\<lambda>i. Some (ipPool st ! ((?c + i) mod ?n))) [0..<?n],
                st\<lparr>currentIPIndex := (?c + ?n) mod ?n\<rparr>)"
    by (rule callNext_valid[OF assms(1,3,2)])
  then show ?thesis by (simp only: l s)
qed

lemma getNextIPFromPool_skip:
  assumes "initialized st" and "ipPool st \<noteq> []"
    and "\<not> currentIPIndex st < length (ipPool st)"
  shows "getNextIPFromPool isv st =
           getNextIPFromPool isv
             (st\<lparr>currentIPIndex := (currentIPIndex st + 1) mod length (ipPool st)\<rparr>)"
  using assms by (subst getNextIPFromPool.simps) (simp add: Let_def)

text \<open>
  Claim C2, as amended: for every initialized pool state (no reconciliation running)
  with \<open>n > 0\<close> addresses that all pass the validity check, \<open>n\<close> calls of
  \<open>getNextIPFromPool\<close> return every entry of the pool once, in cyclic insertion
  order starting at the index (at the entry after it, modulo \<open>n\<close>, when the index is
  past the end): the result is the pool rotated by that start, which is the
  insertion order, oldest first, exactly when the start is 0. After the \<open>n\<close> calls the
  index is back at the start, so further calls repeat the same cycle.
\<close>

theorem round_robin_cycle:
  assumes "initialized st" and "ipPool st \<noteq> []" and "list_all isIPv6 (ipPool st)"
  shows "callNext isIPv6 (length (ipPool st)) st =
           Some (map Some
                   (rotate (if currentIPIndex st < length (ipPool st) then currentIPIndex st
                            else (currentIPIndex st + 1) mod length (ipPool st))
                      (ipPool st)),
                 st\<lparr>currentIPIndex :=
                      (if currentIPIndex st < length (ipPool st) then currentIPIndex st
                       else (currentIPIndex st + 1) mod length (ipPool st))\<rparr>)"
proof (cases "currentIPIndex st < length (ipPool st)")
  case True
  then show ?thesis using cycle_in_range[OF assms(1,3) True] by simp
next
  case False
  let ?n = "length (ipPool st)"
  let ?st1 = "st\<lparr>currentIPIndex := (currentIPIndex st + 1) mod ?n\<rparr>"
  obtain m where n: "?n = Suc m" using assms(2) by (cases "ipPool st") auto
  have in_range: "currentIPIndex ?st1 < length (ipPool ?st1)"
    using assms(2) by simp
  have "callNext isIPv6 (Suc m) st = callNext isIPv6 (Suc m) ?st1"
    by (simp add: getNextIPFromPool_skip[OF assms(1,2) False]
          getNextIPFromPool_valid[of ?st1 isIPv6] )
  moreover have "callNext isIPv6 (length (ipPool ?st1)) ?st1 =
      Some (map Some (rotate (currentIPIndex ?st1) (ipPool ?st1)), ?st1)"
    using assms(1,3) in_range by (intro cycle_in_range) simp_all
  ultimately show ?thesis using False n by simp
qed

theorem round_robin_cycle_witness:
  "callNext accept_all 2 (running [''fd00::1'', ''fd00::2''] 1) =
     Some ([Some ''fd00::2'', Some ''fd00::1''], running [''fd00::1'', ''fd00::2''] 1)"
proof -
  have i: "initialized (running [''fd00::1'', ''fd00::2''] 1)"
    and p: "ipPool (running [''fd00::1'', ''fd00::2''] 1) \<noteq> []"
    and v: "list_all accept_all (ipPool (running [''fd00::1'', ''fd00::2''] 1))"
    by (simp_all add: running_def accept_all_def)
  show ?thesis using round_robin_cycle[OF i p v] by (simp add: running_def numeral_2_eq_2)
qed

text \<open>
  C2 as stated, for every initialized state and in insertion order, oldest first,
  fails where the index is not 0: on the pool of two addresses with index 1 the two
  calls return the younger address first. It also fails where an entry does not pass
  the validity check: that entry is skipped and another is returned twice.
\<close>

theorem insertion_order_counterexample:
  "map_option fst (callNext accept_all 2 (running [''fd00::1'', ''fd00::2''] 1)) =
     Some [Some ''fd00::2'', Some ''fd00::1'']
   \<and> map_option fst (callNext accept_all 2 (running [''fd00::1'', ''fd00::2''] 1)) \<noteq>
       Some (map Some (ipPool (running [''fd00::1'', ''fd00::2''] 1)))
   \<and> map_option fst (callNext not_junk 2 (running [''junk'', ''fd00::2''] 0)) =
       Some [Some ''fd00::2'', Some ''fd00::2'']"
  by (simp add: numeral_2_eq_2 getNextIPFromPool.simps running_def accept_all_def not_junk_def Let_def)

section \<open>Fallback of the dispatcher\<close>

text \<open>
  Claim C6: when \<open>requestWithIPv6\<close> has selected a source address (given, or taken
  from the pool) and the request through the agent bound to it fails, then, if the
  error code is \<open>EADDRNOTAVAIL\<close> or \<open>ENETUNREACH\<close>, exactly one more request is made,
  the plain \<open>axios(url, options)\<close>, and its outcome, success or failure, is the
  outcome of the call; with any other error no further request is made and the call
  rejects with that same error.
\<close>

theorem fallback_once:
  assumes "truthy ipv6 \<or> isIPv6RotationEnabled st"
    and "selectSource isIPv6 ipv6 st = Some (Some ip, st1)"
    and "ip \<noteq> []"
    and "new_URL url = Resolved u"
    and "ax (length calls) (boundConfig options url ip (protocol u = ''https:'')) = Rejected err"
  shows "(code err = Some ''EADDRNOTAVAIL'' \<or> code err = Some ''ENETUNREACH'' \<longrightarrow>
            requestWithIPv6 isIPv6 new_URL ax url options ipv6 st calls =
              Some (ax (Suc (length calls)) (AxiosUrl url options), st1,
                    calls @ [boundConfig options url ip (protocol u = ''https:''),
                             AxiosUrl url options]))
         \<and> (\<not> (code err = Some ''EADDRNOTAVAIL'' \<or> code err = Some ''ENETUNREACH'') \<longrightarrow>
            requestWithIPv6 isIPv6 new_URL ax url options ipv6 st calls =
              Some (Rejected err, st1,
                    calls @ [boundConfig options url ip (protocol u = ''https:'')]))"
  using assms by (auto simp: requestWithIPv6_def axios_request_def Let_def)

theorem fallback_once_witness:
  "requestWithIPv6 accept_all sample_URL (axios_bound_fails ''ENETUNREACH'')
       ''https://cdn.example.com/seg1.ts'' () (Some ''fd00::1'') initial_state [] =
     Some (Resolved ''#EXTM3U'', initial_state,
           [AxiosConfig () ''https://cdn.example.com/seg1.ts'' None
              (Some (HttpsAgent \<lparr>keepAlive = True, timeout = 30000, localAddress = ''fd00::1''\<rparr>)),
            AxiosUrl ''https://cdn.example.com/seg1.ts'' ()])
   \<and> requestWithIPv6 accept_all sample_URL (axios_bound_fails ''ECONNRESET'')
       ''https://cdn.example.com/seg1.ts'' () None (running [''fd00::1''] 0) [] =
     Some (Rejected (JsError (Some ''ECONNRESET'') None), running [''fd00::1''] 0,
           [AxiosConfig () ''https://cdn.example.com/seg1.ts'' None
              (Some (HttpsAgent \<lparr>keepAlive = True, timeout = 30000, localAddress = ''fd00::1''\<rparr>))])"
proof -
  have u: "sample_URL ''https://cdn.example.com/seg1.ts'' =
      Resolved \<lparr>protocol = ''https:'', hostname = ''cdn.example.com'', port = [],
                      pathname = ''/seg1.ts'', search = []\<rparr>"
    by (simp add: sample_URL_def)
  have s1: "selectSource accept_all (Some ''fd00::1'') initial_state = Some (Some ''fd00::1'', initial_state)"
    by (simp add: selectSource_def)
  have s2: "selectSource accept_all None (running [''fd00::1''] 0) = Some (Some ''fd00::1'', running [''fd00::1''] 0)"
    by (simp add: selectSource_def getNextIPFromPool.simps running_def accept_all_def)
  have e2: "isIPv6RotationEnabled (running [''fd00::1''] 0)"
    by (simp add: isIPv6RotationEnabled_def running_def)
  have a: "axios_bound_fails c (length ([] :: unit axios_call list))
             (boundConfig () ''https://cdn.example.com/seg1.ts'' ''fd00::1''
                (protocol \<lparr>protocol = ''https:'', hostname = ''cdn.example.com'', port = [],
                      pathname = ''/seg1.ts'', search = []\<rparr> = ''https:'')) =
           Rejected (JsError (Some c) None)" for c
    by (simp add: axios_bound_fails_def boundConfig_def Let_def)
  show ?thesis
    using fallback_once[where new_URL = sample_URL and url = "''https://cdn.example.com/seg1.ts''"
          and ax = "axios_bound_fails ''ENETUNREACH''" and calls = "[]" and options = "()",
          OF _ s1 _ u a]
      fallback_once[where new_URL = sample_URL and url = "''https://cdn.example.com/seg1.ts''"
          and ax = "axios_bound_fails ''ECONNRESET''" and calls = "[]" and options = "()",
          OF _ s2 _ u a] e2
    by (simp add: boundConfig_def createIPv6Agent_def axios_bound_fails_def)
qed

section \<open>Transports of the dispatcher\<close>

lemma boundConfig_dispatcher_call: "dispatcher_call url options (boundConfig options url ip b)"
  by (simp add: dispatcher_call_def boundConfig_def createIPv6Agent_def Let_def)

lemma plain_dispatcher_call: "dispatcher_call url options (AxiosUrl url options)"
  by (simp add: dispatcher_call_def)

lemma requestWithIPv6_calls:
  assumes "requestWithIPv6 isIPv6 new_URL ax url options ipv6 st calls = Some (r, st', calls')"
  shows "\<exists>new. calls' = calls @ new \<and> list_all (dispatcher_call url options) new"
  using assms
  by (auto simp: requestWithIPv6_def axios_request_def Let_def
        boundConfig_dispatcher_call plain_dispatcher_call
      split: if_splits option.splits promise.splits prod.splits)

lemma createIPv6StreamRequest_options:
  assumes "createIPv6StreamRequest isIPv6 new_URL meth url hdrs ipv6 st = Some (Resolved req, st')"
  shows "opt_agent (req_options req) = None \<and> opt_timeout (req_options req) = None
         \<and> (truthy ipv6 \<longrightarrow> opt_localAddress (req_options req) = ipv6)"
  using assms
  by (auto simp: createIPv6StreamRequest_def Let_def
      split: if_splits option.splits promise.splits prod.splits)

lemma createIPv6StreamRequest_bound:
  assumes "createIPv6StreamRequest isIPv6 new_URL meth url hdrs ipv6 st = Some (Resolved req, st')"
  shows "(\<not> truthy ipv6 \<and> \<not> isIPv6RotationEnabled st \<longrightarrow> opt_localAddress (req_options req) = None)
         \<and> (\<not> truthy ipv6 \<and> isIPv6RotationEnabled st \<longrightarrow>
               (\<exists>a. getNextIPFromPool isIPv6 st = Some (a, st')
                    \<and> opt_localAddress (req_options req) = (if truthy a then a else None)))"
proof -
  let ?sel = "if truthy ipv6 then Some (ipv6, st)
              else if isIPv6RotationEnabled st then getNextIPFromPool isIPv6 st
              else Some (None, st)"
  obtain uri where u: "new_URL url = Resolved uri"
    using assms by (cases "new_URL url") (simp_all add: createIPv6StreamRequest_def)
  obtain a s1 where sel: "?sel = Some (a, s1)"
    using assms u by (cases ?sel) (auto simp: createIPv6StreamRequest_def Let_def)
  have "Some (Resolved req, st') =
          (let options =
                 \<lparr>opt_hostname = hostname uri,
                  opt_port = (if port uri \<noteq> [] then PortText (port uri)
                              else PortNumber (if protocol uri = ''https:'' then 443 else 80)),
                  opt_path = pathname uri @ search uri, opt_method = meth, opt_headers = hdrs,
                  opt_localAddress = None, opt_agent = None, opt_timeout = None\<rparr>;
               options1 = (if truthy a then options\<lparr>opt_localAddress := a\<rparr> else options)
           in Some (Resolved (if protocol uri = ''https:'' then HttpsRequest options1
                              else HttpRequest options1), s1))"
    using assms unfolding createIPv6StreamRequest_def u sel Let_def by simp
  then have r: "st' = s1 \<and> opt_localAddress (req_options req) = (if truthy a then a else None)"
    by (simp add: Let_def split: if_splits)
  show ?thesis
  proof (intro conjI impI)
    assume "\<not> truthy ipv6 \<and> \<not> isIPv6RotationEnabled st"
    with sel have "a = None" by simp
    with r show "opt_localAddress (req_options req) = None" by simp
  next
    assume "\<not> truthy ipv6 \<and> isIPv6RotationEnabled st"
    with sel have "getNextIPFromPool isIPv6 st = Some (a, s1)" by simp
    with r show "\<exists>a. getNextIPFromPool isIPv6 st = Some (a, st')
                    \<and> opt_localAddress (req_options req) = (if truthy a then a else None)"
      by blast
  qed
qed

lemma run_stream_pool:
  "createIPv6StreamRequest accept_all sample_URL ''GET'' ''http://cdn.example.com/seg1.ts?q=1'' ()
       None (running [''fd00::2''] 0) =
     Some (Resolved (HttpRequest
             \<lparr>opt_hostname = ''cdn.example.com'', opt_port = PortText ''8080'',
              opt_path = ''/seg1.ts?q=1'', opt_method = ''GET'', opt_headers = (),
              opt_localAddress = Some ''fd00::2'', opt_agent = None, opt_timeout = None\<rparr>),
           running [''fd00::2''] 0)"
  by (simp add: createIPv6StreamRequest_def sample_URL_def Let_def isIPv6RotationEnabled_def
        getNextIPFromPool.simps running_def accept_all_def)

lemma run_stream_unbound:
  "createIPv6StreamRequest accept_all sample_URL ''GET'' ''https://cdn.example.com/seg1.ts'' ()
       None initial_state =
     Some (Resolved (HttpsRequest
             \<lparr>opt_hostname = ''cdn.example.com'', opt_port = PortNumber 443,
              opt_path = ''/seg1.ts'', opt_method = ''GET'', opt_headers = (),
              opt_localAddress = None, opt_agent = None, opt_timeout = None\<rparr>),
           initial_state)"
  by (simp add: createIPv6StreamRequest_def sample_URL_def Let_def isIPv6RotationEnabled_def
        initial_state_def)

lemma run_stream:
  "createIPv6StreamRequest accept_all sample_URL ''GET'' ''https://cdn.example.com/seg1.ts'' ()
       (Some ''fd00::1'') initial_state =
     Some (Resolved (HttpsRequest
             \<lparr>opt_hostname = ''cdn.example.com'', opt_port = PortNumber 443,
              opt_path = ''/seg1.ts'', opt_method = ''GET'', opt_headers = (),
              opt_localAddress = Some ''fd00::1'', opt_agent = None, opt_timeout = None\<rparr>),
           initial_state)"
  by (simp add: createIPv6StreamRequest_def sample_URL_def Let_def)

lemma run_bound:
  "requestWithIPv6 accept_all sample_URL (axios_bound_fails ''ENETUNREACH'')
       ''https://cdn.example.com/seg1.ts'' () (Some ''fd00::1'') initial_state [] =
     Some (Resolved ''#EXTM3U'', initial_state,
           [AxiosConfig () ''https://cdn.example.com/seg1.ts'' None
              (Some (HttpsAgent \<lparr>keepAlive = True, timeout = 30000, localAddress = ''fd00::1''\<rparr>)),
            AxiosUrl ''https://cdn.example.com/seg1.ts'' ()])"
  by (simp add: requestWithIPv6_def selectSource_def sample_URL_def axios_request_def
        axios_bound_fails_def boundConfig_def createIPv6Agent_def Let_def)

text \<open>
  Claim C8, as amended: every request \<open>requestWithIPv6\<close> issues is either the plain
  \<open>axios(url, options)\<close> of the default path, which gets no transport from the
  dispatcher, or a request with exactly one agent, which keeps connections alive and
  has the fixed timeout of 30000 ms. The streaming variant builds no agent: its
  request options set neither an agent nor a timeout. They bind the request to the
  selected address and to nothing else: the given address when there is one,
  otherwise the address the pool returns when rotation is enabled, and no address
  when rotation is not enabled or the pool returns none.
\<close>

theorem transport_parameters:
  "(requestWithIPv6 isIPv6 new_URL ax url options ipv6 st calls = Some (r, st', calls') \<longrightarrow>
      (\<exists>new. calls' = calls @ new \<and> list_all (dispatcher_call url options) new))
   \<and> (createIPv6StreamRequest isIPv6 new_URL meth url2 hdrs ipv6 st = Some (Resolved req, st2) \<longrightarrow>
        opt_agent (req_options req) = None \<and> opt_timeout (req_options req) = None
        \<and> (truthy ipv6 \<longrightarrow> opt_localAddress (req_options req) = ipv6)
        \<and> (\<not> truthy ipv6 \<and> \<not> isIPv6RotationEnabled st \<longrightarrow>
              opt_localAddress (req_options req) = None)
        \<and> (\<not> truthy ipv6 \<and> isIPv6RotationEnabled st \<longrightarrow>
              (\<exists>a. getNextIPFromPool isIPv6 st = Some (a, st2)
                   \<and> opt_localAddress (req_options req) = (if truthy a then a else None))))"
proof (intro conjI impI)
  assume "requestWithIPv6 isIPv6 new_URL ax url options ipv6 st calls = Some (r, st', calls')"
  then show "\<exists>new. calls' = calls @ new \<and> list_all (dispatcher_call url options) new"
    by (rule requestWithIPv6_calls)
next
  assume s: "createIPv6StreamRequest isIPv6 new_URL meth url2 hdrs ipv6 st = Some (Resolved req, st2)"
  show "opt_agent (req_options req) = None"
    using createIPv6StreamRequest_options[OF s] by simp
  show "opt_timeout (req_options req) = None"
    using createIPv6StreamRequest_options[OF s] by simp
  show "opt_localAddress (req_options req) = ipv6" if "truthy ipv6"
    using createIPv6StreamRequest_options[OF s] that by simp
  show "opt_localAddress (req_options req) = None"
    if "\<not> truthy ipv6 \<and> \<not> isIPv6RotationEnabled st"
    using createIPv6StreamRequest_bound[OF s] that by simp
  show "\<exists>a. getNextIPFromPool isIPv6 st = Some (a, st2)
           \<and> opt_localAddress (req_options req) = (if truthy a then a else None)"
    if "\<not> truthy ipv6 \<and> isIPv6RotationEnabled st"
    using createIPv6StreamRequest_bound[OF s] that by simp
qed

theorem transport_parameters_witness:
  "list_all (dispatcher_call ''https://cdn.example.com/seg1.ts'' ())
     [AxiosConfig () ''https://cdn.example.com/seg1.ts'' None
        (Some (HttpsAgent \<lparr>keepAlive = True, timeout = 30000, localAddress = ''fd00::1''\<rparr>)),
      AxiosUrl ''https://cdn.example.com/seg1.ts'' ()]
   \<and> opt_localAddress (req_options (HttpsRequest
             \<lparr>opt_hostname = ''cdn.example.com'', opt_port = PortNumber 443,
              opt_path = ''/seg1.ts'', opt_method = ''GET'', opt_headers = (),
              opt_localAddress = Some ''fd00::1'', opt_agent = None, opt_timeout = None\<rparr>)) =
       Some ''fd00::1''
   \<and> (\<exists>a. getNextIPFromPool accept_all (running [''fd00::2''] 0) = Some (a, running [''fd00::2''] 0)
          \<and> opt_localAddress (req_options (HttpRequest
               \<lparr>opt_hostname = ''cdn.example.com'', opt_port = PortText ''8080'',
                opt_path = ''/seg1.ts?q=1'', opt_method = ''GET'', opt_headers = (),
                opt_localAddress = Some ''fd00::2'', opt_agent = None, opt_timeout = None\<rparr>)) =
              (if truthy a then a else None))
   \<and> opt_localAddress (req_options (HttpsRequest
             \<lparr>opt_hostname = ''cdn.example.com'', opt_port = PortNumber 443,
              opt_path = ''/seg1.ts'', opt_method = ''GET'', opt_headers = (),
              opt_localAddress = None, opt_agent = None, opt_timeout = None\<rparr>)) = None"
proof -
  note t = transport_parameters[of accept_all sample_URL "axios_bound_fails ''ENETUNREACH''"
      "''https://cdn.example.com/seg1.ts''" "()" "Some ''fd00::1''" initial_state "[]" _ _ _
      "''GET''" "''https://cdn.example.com/seg1.ts''" "()"]
  from t[THEN conjunct1] run_bound
  have "\<exists>new. [AxiosConfig () ''https://cdn.example.com/seg1.ts'' None
              (Some (HttpsAgent \<lparr>keepAlive = True, timeout = 30000, localAddress = ''fd00::1''\<rparr>)),
            AxiosUrl ''https://cdn.example.com/seg1.ts'' ()] = [] @ new
          \<and> list_all (dispatcher_call ''https://cdn.example.com/seg1.ts'' ()) new"
    by (rule mp)
  then have a: "list_all (dispatcher_call ''https://cdn.example.com/seg1.ts'' ())
     [AxiosConfig () ''https://cdn.example.com/seg1.ts'' None
        (Some (HttpsAgent \<lparr>keepAlive = True, timeout = 30000, localAddress = ''fd00::1''\<rparr>)),
      AxiosUrl ''https://cdn.example.com/seg1.ts'' ()]"
    by (elim exE conjE) (simp only: append_Nil)
  have b: "opt_localAddress (req_options (HttpsRequest
             \<lparr>opt_hostname = ''cdn.example.com'', opt_port = PortNumber 443,
              opt_path = ''/seg1.ts'', opt_method = ''GET'', opt_headers = (),
              opt_localAddress = Some ''fd00::1'', opt_agent = None, opt_timeout = None\<rparr>)) =
       Some ''fd00::1''"
    using t[THEN conjunct2, THEN mp, OF run_stream] by simp
  have e: "isIPv6RotationEnabled (running [''fd00::2''] 0)"
    by (simp add: isIPv6RotationEnabled_def running_def)
  have c: "\<exists>a. getNextIPFromPool accept_all (running [''fd00::2''] 0) = Some (a, running [''fd00::2''] 0)
          \<and> opt_localAddress (req_options (HttpRequest
               \<lparr>opt_hostname = ''cdn.example.com'', opt_port = PortText ''8080'',
                opt_path = ''/seg1.ts?q=1'', opt_method = ''GET'', opt_headers = (),
                opt_localAddress = Some ''fd00::2'', opt_agent = None, opt_timeout = None\<rparr>)) =
              (if truthy a then a else None)"
    using transport_parameters[THEN conjunct2, THEN mp, OF run_stream_pool] e by simp
  have n: "\<not> isIPv6RotationEnabled initial_state"
    by (simp add: isIPv6RotationEnabled_def initial_state_def)
  have d: "opt_localAddress (req_options (HttpsRequest
             \<lparr>opt_hostname = ''cdn.example.com'', opt_port = PortNumber 443,
              opt_path = ''/seg1.ts'', opt_method = ''GET'', opt_headers = (),
              opt_localAddress = None, opt_agent = None, opt_timeout = None\<rparr>)) = None"
    using transport_parameters[THEN conjunct2, THEN mp, OF run_stream_unbound] n by simp
  show ?thesis using a b c d by (intro conjI)
qed

text \<open>
  C8 as stated gives every outbound request a fixed timeout and the streaming variant
  the transport parameters of the buffered one. On the code the streaming request to
  an address has that address as its only transport setting, and the request of the
  default path is the plain call.
\<close>

theorem stream_transport_counterexample:
  "createIPv6StreamRequest accept_all sample_URL ''GET'' ''https://cdn.example.com/seg1.ts'' ()
       (Some ''fd00::1'') initial_state =
     Some (Resolved (HttpsRequest
             \<lparr>opt_hostname = ''cdn.example.com'', opt_port = PortNumber 443,
              opt_path = ''/seg1.ts'', opt_method = ''GET'', opt_headers = (),
              opt_localAddress = Some ''fd00::1'', opt_agent = None, opt_timeout = None\<rparr>),
           initial_state)
   \<and> requestWithIPv6 accept_all sample_URL (axios_bound_fails ''ENETUNREACH'')
       ''https://cdn.example.com/seg1.ts'' () None initial_state [] =
     Some (Resolved ''#EXTM3U'', initial_state, [AxiosUrl ''https://cdn.example.com/seg1.ts'' ()])"
  by (simp add: createIPv6StreamRequest_def sample_URL_def Let_def
        requestWithIPv6_def isIPv6RotationEnabled_def initial_state_def axios_request_def
        axios_bound_fails_def)

section \<open>Status of an empty pool\<close>

lemma run_init_all_adds_fail:
  "initIPv6Pool linux_host cfg_2_2 shell_first_only sample_addr initial_state [] =
     (Resolved True, running [] 0,
      [''ip link show eth0'', ''ip -6 addr add fd00:0:0:1::a/128 dev eth0'',
       ''ip -6 addr add fd00:0:0:1::b/128 dev eth0''])"
  by (simp add: run_defs numeral_2_eq_2)

text \<open>
  Claim C10: in every state where the pool is initialized and empty, the status
  snapshot reports \<open>enabled\<close> and a pool size of 0, \<open>isIPv6RotationEnabled\<close> is
  false, and \<open>requestWithIPv6\<close> without an address makes the plain request of the
  default path and returns its outcome. A start in which every add fails leads to
  such a state.
\<close>

theorem empty_pool_status:
  assumes "initialized st" and "ipPool st = []" and "\<not> truthy ipv6"
  shows "enabled (getIPv6PoolInfo cfg st) \<and> poolSize (getIPv6PoolInfo cfg st) = 0
         \<and> \<not> isIPv6RotationEnabled st
         \<and> requestWithIPv6 isIPv6 new_URL ax url options ipv6 st calls =
             Some (ax (length calls) (AxiosUrl url options), st, calls @ [AxiosUrl url options])"
  using assms
  by (simp add: getIPv6PoolInfo_def isIPv6RotationEnabled_def requestWithIPv6_def axios_request_def)

theorem empty_pool_status_witness:
  "initIPv6Pool linux_host cfg_2_2 shell_first_only sample_addr initial_state [] =
     (Resolved True, running [] 0,
      [''ip link show eth0'', ''ip -6 addr add fd00:0:0:1::a/128 dev eth0'',
       ''ip -6 addr add fd00:0:0:1::b/128 dev eth0''])
   \<and> enabled (getIPv6PoolInfo cfg_2_2 (running [] 0))
   \<and> poolSize (getIPv6PoolInfo cfg_2_2 (running [] 0)) = 0
   \<and> \<not> isIPv6RotationEnabled (running [] 0)
   \<and> requestWithIPv6 accept_all sample_URL (axios_bound_fails ''ENETUNREACH'')
        ''https://cdn.example.com/seg1.ts'' () None (running [] 0) [] =
       Some (Resolved ''#EXTM3U'', running [] 0, [AxiosUrl ''https://cdn.example.com/seg1.ts'' ()])"
proof -
  have i: "initialized (running [] 0)" and p: "ipPool (running [] 0) = []"
    by (simp_all add: running_def)
  have t: "\<not> truthy None" by simp
  show ?thesis
    using empty_pool_status[OF i p t, of cfg_2_2 accept_all sample_URL
        "axios_bound_fails ''ENETUNREACH''" "''https://cdn.example.com/seg1.ts''" "()" "[]"]
      run_init_all_adds_fail
    by (simp add: axios_bound_fails_def)
qed

end
